theory Spec2Isabelle
  imports
    Complex_Main
    "HOL-Library.Multiset"
    "HOL-Library.Char_ord"
    "HOL-Library.List_Lexorder"
begin

section \<open>Data model (mp\_data/db.py, mp\_data/data.py)\<close>

text \<open>
  Python exceptions that the modelled functions can raise are values of \<open>py_error\<close>;
  a fallible function returns \<open>py_error + 'a\<close> with the exception on the left.
  \<open>ExternalError\<close> stands for whatever an external library raises (the ISO 4217
  parser on an unknown symbol, the currency converter on a missing rate or an
  unreachable rate source).

  Python floats are idealised as reals: a quotient, a mean or a square root is the exact
  one, where the program has the nearest double. The one special value that the outlier
  filter depends on, the NaN that a division of zero by zero produces, is modelled
  explicitly (see \<open>zscore\<close>). What is proved of a comparison of computed floats holds
  of the program where rounding does not decide that comparison.
\<close>

datatype py_error = TypeError | IndexError | ValueError | ZeroDivisionError
  | StopIteration | ExternalError

record py_datetime =
  year :: nat
  month :: nat
  day :: nat
  hour :: nat
  minute :: nat
  second :: nat

text \<open>Class \<open>HIT\<close> of db.py: every column is declared non-null.\<close>

record HIT =
  hit_id :: string
  creation_time :: py_datetime
  batch_name :: string
  url_param :: string
  domain_name :: string

text \<open>
  Class \<open>Assignment\<close> of db.py. The columns \<open>price\<close>, \<open>currency\<close> and \<open>quantity\<close> are
  nullable (plain \<open>Column\<close>), \<open>in_stock\<close> is not; \<open>hit\<close> is the relationship to the parent
  task, whose foreign key is enforced.
\<close>

record Assignment =
  hit_id :: string
  assignment_id :: string
  in_stock :: bool
  price :: "real option"
  currency :: "string option"
  quantity :: "int option"
  hit :: HIT

text \<open>
  Dataclass \<open>_Observation\<close> of data.py. The consolidator passes the majority tuple's
  price, currency and quantity on as they are and a dataclass checks no types, so the
  fields hold what the columns hold, \<open>None\<close> included. \<open>uuid\<close> is the field that
  \<open>__post_init__\<close> fills with \<open>uuid.uuid4().hex\<close>.
\<close>

record Observation =
  datetime :: py_datetime
  price_cents :: "real option"
  currency_symbol :: "string option"
  quantity :: "int option"
  in_stock :: bool
  domain_name :: string
  url :: string
  uuid :: string

section \<open>The consolidator\<close>

definition MIN_MATCHING_RESULT :: nat where
  "MIN_MATCHING_RESULT = 2"

type_synonym report_tuple = "real option \<times> int option \<times> string option \<times> bool"

text \<open>The key \<open>t = (a.price, a.quantity, a.currency, a.in_stock)\<close>.\<close>

definition report_tuple :: "Assignment \<Rightarrow> report_tuple" where
  "report_tuple a =
     (Assignment.price a, Assignment.quantity a, Assignment.currency a, Assignment.in_stock a)"

text \<open>
  \<open>count = defaultdict(int)\<close> is an association list in insertion order, which is the
  order a Python dict iterates in; \<open>incr t count\<close> is \<open>count[t] += 1\<close>.
\<close>

fun incr :: "'k \<Rightarrow> ('k \<times> nat) list \<Rightarrow> ('k \<times> nat) list" where
  "incr t [] = [(t, 1)]"
| "incr t ((k, n) # kvs) = (if t = k then (k, n + 1) # kvs else (k, n) # incr t kvs)"

definition count_tuples :: "Assignment list \<Rightarrow> (report_tuple \<times> nat) list" where
  "count_tuples assignments = foldl (\<lambda>count a. incr (report_tuple a) count) [] assignments"

text \<open>\<open>max(values)\<close>, which raises \<open>ValueError\<close> on an empty sequence.\<close>

definition py_max :: "nat list \<Rightarrow> py_error + nat" where
  "py_max ns = (case ns of [] \<Rightarrow> Inl ValueError | n # rest \<Rightarrow> Inr (fold max rest n))"

text \<open>
  \<open>5 <= quantity <= 500 and quantity % 5 == 0\<close>. The comparison of \<open>None\<close> with an
  integer raises \<open>TypeError\<close>.
\<close>

definition check_legit_quantity :: "int option \<Rightarrow> py_error + bool" where
  "check_legit_quantity qty =
     (case qty of
        None \<Rightarrow> Inl TypeError
      | Some q \<Rightarrow> Inr (5 \<le> q \<and> q \<le> 500 \<and> q mod 5 = 0))"

text \<open>
  \<open>_consolidate_assignments\<close>. The first argument is the identifier that
  \<open>uuid.uuid4()\<close> generates when the observation is constructed. The majority tuple
  \<open>price, quantity, currency, in_stock = majority\<close> is \<open>(prc, qty, cur, stock)\<close> here, the
  field names being taken by the records. The two tests of
  \<open>not _check_legit_quantity(quantity) or price == 0\<close> are made in this order, the second
  only when the first is false.
\<close>

definition consolidate_assignments ::
    "string \<Rightarrow> Assignment list \<Rightarrow> py_error + Observation option" where
  "consolidate_assignments fresh_uuid assignments =
     (case assignments of
        [] \<Rightarrow> Inr None
      | first # _ \<Rightarrow>
          let count = count_tuples assignments in
          (case py_max (map snd count) of
             Inl e \<Rightarrow> Inl e
           | Inr max_count \<Rightarrow>
               if max_count \<ge> MIN_MATCHING_RESULT then
                 (case find (\<lambda>(k, n). n = max_count) count of
                    None \<Rightarrow> Inl StopIteration
                  | Some ((prc, qty, cur, stock), _) \<Rightarrow>
                      (case check_legit_quantity qty of
                         Inl e \<Rightarrow> Inl e
                       | Inr legit \<Rightarrow>
                           if \<not> legit then Inr None
                           else if prc = Some 0 then Inr None
                           else
                             let h = Assignment.hit first in
                             Inr (Some \<lparr>
                               datetime = creation_time h,
                               price_cents = prc,
                               currency_symbol = cur,
                               quantity = qty,
                               in_stock = stock,
                               domain_name = HIT.domain_name h,
                               url = url_param h,
                               uuid = fresh_uuid \<rparr>)))
               else Inr None))"

section \<open>Derived fields of an observation\<close>

text \<open>
  The external services the observation model calls. \<open>parse_alpha3 s\<close> is
  \<open>iso4217parse.parse(s)[0].alpha3\<close>: the three-letter code of the first currency the
  parser finds for the symbol, or the exception raised on the way (no match, \<open>None\<close>
  as symbol). \<open>currency_converter\<close> is \<open>_get_currency_converter()\<close>, which fails when
  the rate table cannot be fetched and otherwise gives the conversion
  \<open>cc.convert(amount, currency, "USD", date=date)\<close>.
\<close>

type_synonym py_date = "nat \<times> nat \<times> nat"

record services =
  parse_alpha3 :: "string option \<Rightarrow> py_error + string"
  currency_converter :: "py_error + (real \<Rightarrow> string \<Rightarrow> py_date \<Rightarrow> py_error + real)"

text \<open>Property \<open>price\<close>: \<open>self.price_cents / 100\<close>; dividing \<open>None\<close> raises.\<close>

definition price :: "Observation \<Rightarrow> py_error + real" where
  "price ob = (case price_cents ob of None \<Rightarrow> Inl TypeError | Some c \<Rightarrow> Inr (c / 100))"

definition date :: "Observation \<Rightarrow> py_date" where
  "date ob = (year (datetime ob), month (datetime ob), day (datetime ob))"

text \<open>
  \<open>strftime("%Y-%m-%d")\<close>: the year in four digits, month and day in two, padded with
  zeros (years 1000 to 9999, months and days as a \<open>datetime\<close> holds them).
\<close>

definition digit_char :: "nat \<Rightarrow> char" where
  "digit_char n = ''0123456789'' ! (n mod 10)"

fun zero_padded :: "nat \<Rightarrow> nat \<Rightarrow> string" where
  "zero_padded 0 n = []"
| "zero_padded (Suc w) n = zero_padded w (n div 10) @ [digit_char n]"

definition date_str :: "Observation \<Rightarrow> string" where
  "date_str ob =
     (case date ob of
        (y, m, d) \<Rightarrow> zero_padded 4 y @ ''-'' @ zero_padded 2 m @ ''-'' @ zero_padded 2 d)"

definition iso_currency :: "services \<Rightarrow> Observation \<Rightarrow> py_error + string" where
  "iso_currency sv ob =
     (if currency_symbol ob = Some ''$'' then Inr ''USD''
      else parse_alpha3 sv (currency_symbol ob))"

text \<open>
  Property \<open>price_usd\<close>. In the conversion branch Python obtains the converter first and
  then evaluates the arguments \<open>self.price\<close>, \<open>self.iso_currency\<close> and \<open>self.date\<close>.
\<close>

definition price_usd :: "services \<Rightarrow> Observation \<Rightarrow> py_error + real" where
  "price_usd sv ob =
     (case iso_currency sv ob of
        Inl e \<Rightarrow> Inl e
      | Inr code \<Rightarrow>
          if code = ''USD'' then price ob
          else
            (case currency_converter sv of
               Inl e \<Rightarrow> Inl e
             | Inr cc \<Rightarrow>
                 (case price ob of
                    Inl e \<Rightarrow> Inl e
                  | Inr amount \<Rightarrow> cc amount code (date ob))))"

text \<open>
  Property \<open>unit_price_usd\<close>: \<open>self.price_usd / self.quantity\<close>, a float divided by what
  the quantity field holds.
\<close>

definition unit_price_usd :: "services \<Rightarrow> Observation \<Rightarrow> py_error + real" where
  "unit_price_usd sv ob =
     (case price_usd sv ob of
        Inl e \<Rightarrow> Inl e
      | Inr p \<Rightarrow>
          (case Observation.quantity ob of
             None \<Rightarrow> Inl TypeError
           | Some q \<Rightarrow> if q = 0 then Inl ZeroDivisionError else Inr (p / real_of_int q)))"

text \<open>Property \<open>marketplace\<close>: strip a leading \<open>www.\<close>, then replace dots by underscores.\<close>

definition marketplace :: "Observation \<Rightarrow> string" where
  "marketplace ob =
     (let prefix = ''www.'';
          name = (if take (length prefix) (Observation.domain_name ob) = prefix
                  then drop (length prefix) (Observation.domain_name ob)
                  else Observation.domain_name ob)
      in map (\<lambda>c. if c = CHR ''.'' then CHR ''_'' else c) name)"

section \<open>The outlier filter\<close>

definition OUTLIER_THRESHOLD :: real where
  "OUTLIER_THRESHOLD = 1"

text \<open>\<open>list(map(f, xs))\<close> for an \<open>f\<close> that can raise: the first exception ends the map.\<close>

fun map_raising :: "('a \<Rightarrow> py_error + 'b) \<Rightarrow> 'a list \<Rightarrow> py_error + 'b list" where
  "map_raising f [] = Inr []"
| "map_raising f (x # xs) =
     (case f x of
        Inl e \<Rightarrow> Inl e
      | Inr y \<Rightarrow> (case map_raising f xs of Inl e \<Rightarrow> Inl e | Inr ys \<Rightarrow> Inr (y # ys)))"

text \<open>
  \<open>scipy.stats.zscore\<close> on one column, with its defaults: \<open>(a - a.mean()) / a.std()\<close>,
  the standard deviation being the population one (\<open>ddof=0\<close>). Where the standard
  deviation is zero every \<open>a - a.mean()\<close> is zero too and the quotient is NaN, which is
  \<open>None\<close> here. Mean, deviation and quotient are the exact ones: a z-score that is 1
  here can be a double just below or above 1 in the program.
\<close>

definition mean :: "real list \<Rightarrow> real" where
  "mean a = sum_list a / real (length a)"

definition std :: "real list \<Rightarrow> real" where
  "std a = sqrt (mean (map (\<lambda>x. (x - mean a)\<^sup>2) a))"

definition zscore :: "real list \<Rightarrow> real option list" where
  "zscore a =
     (let mn = mean a; sd = std a
      in map (\<lambda>x. if sd = 0 then None else Some ((x - mn) / sd)) a)"

text \<open>
  The body of the loop of \<open>_filter_outliers\<close> for one bucket \<open>curr_observations\<close>.
  \<open>condition\<close> is \<open>(np.abs(stats.zscore(df)) < OUTLIER_THRESHOLD).all(axis=1)\<close>, one
  truth value per row; a comparison with NaN is false.
\<close>

definition filter_bucket :: "services \<Rightarrow> Observation list \<Rightarrow> py_error + Observation list" where
  "filter_bucket sv curr_observations =
     (let indices = map uuid curr_observations in
      case map_raising (unit_price_usd sv) curr_observations of
        Inl e \<Rightarrow> Inl e
      | Inr unit_prices \<Rightarrow>
          if length indices < 3 then Inr curr_observations
          else
            let condition =
                  map (\<lambda>z. case z of None \<Rightarrow> False | Some v \<Rightarrow> \<bar>v\<bar> < OUTLIER_THRESHOLD)
                    (zscore unit_prices);
                allowed_uuids = set (map fst (filter snd (zip indices condition)))
            in Inr (filter (\<lambda>ob. uuid ob \<in> allowed_uuids) curr_observations))"

text \<open>The loop over \<open>itertools.product(marketplaces, dates)\<close>, extending \<open>results\<close>.\<close>

fun filter_loop ::
    "services \<Rightarrow> Observation list \<Rightarrow> (string \<times> string) list \<Rightarrow> Observation list
      \<Rightarrow> py_error + Observation list" where
  "filter_loop sv observations [] results = Inr results"
| "filter_loop sv observations ((m, d) # rest) results =
     (case filter_bucket sv
             (filter (\<lambda>ob. marketplace ob = m \<and> date_str ob = d) observations) of
        Inl e \<Rightarrow> Inl e
      | Inr kept \<Rightarrow> filter_loop sv observations rest (results @ kept))"

text \<open>
  \<open>_filter_outliers\<close>. A Python set of strings iterates in an order that the program
  does not fix (it follows the strings' hashes, which change from one process to the
  next). \<open>set_iter\<close> is that order: it maps the sequence of elements a set was built
  from to the sequence the set iterates in.
\<close>

definition set_iterator :: "('a list \<Rightarrow> 'a list) \<Rightarrow> bool" where
  "set_iterator set_iter \<longleftrightarrow> (\<forall>xs. distinct (set_iter xs) \<and> set (set_iter xs) = set xs)"

definition filter_outliers ::
    "services \<Rightarrow> (string list \<Rightarrow> string list) \<Rightarrow> Observation list
      \<Rightarrow> py_error + Observation list" where
  "filter_outliers sv set_iter observations =
     (let marketplaces = set_iter (map marketplace observations);
          dates = set_iter (map date_str observations)
      in filter_loop sv observations (List.product marketplaces dates) [])"

section \<open>The exporters\<close>

text \<open>
  \<open>_export_latest_marketplace\<close>, returning the rows \<open>(Url, Unit_Price_$)\<close> of the data
  frame it writes to \<open>{marketplace}_latest.csv\<close>. \<open>sorted(...)[-1]\<close> raises
  \<open>IndexError\<close> on an empty list. \<open>sort_values\<close> is a sort by the price column; rows of
  equal price are kept here in their order.
\<close>

definition export_latest_marketplace ::
    "services \<Rightarrow> Observation list \<Rightarrow> string \<Rightarrow> py_error + (string \<times> real) list" where
  "export_latest_marketplace sv all_observations m =
     (let observations = filter (\<lambda>ob. marketplace ob = m) all_observations in
      case sort (map date_str observations) of
        [] \<Rightarrow> Inl IndexError
      | d # ds \<Rightarrow>
          let latest_date = last (d # ds) in
          (case map_raising
                  (\<lambda>ob. case unit_price_usd sv ob of
                           Inl e \<Rightarrow> Inl e
                         | Inr p \<Rightarrow> Inr (url ob, p))
                  (filter (\<lambda>ob. date_str ob = latest_date) observations) of
             Inl e \<Rightarrow> Inl e
           | Inr items \<Rightarrow> Inr (sort_key snd items)))"

text \<open>
  The output directory maps a file name to the rows of the table written to it: (Date,
  Median\_Unit\_Price\_\$) in a time series, (Url, Unit\_Price\_\$) in a latest snapshot.
\<close>

type_synonym csv_rows = "(string \<times> real) list"

type_synonym directory = "string \<rightharpoonup> csv_rows"

text \<open>\<open>_export_latest_observations\<close>, a loop over the set of marketplaces.\<close>

fun export_latest_loop ::
    "services \<Rightarrow> Observation list \<Rightarrow> string list \<Rightarrow> directory \<Rightarrow> py_error + directory" where
  "export_latest_loop sv observations [] out_dir = Inr out_dir"
| "export_latest_loop sv observations (m # rest) out_dir =
     (case export_latest_marketplace sv observations m of
        Inl e \<Rightarrow> Inl e
      | Inr rows \<Rightarrow>
          export_latest_loop sv observations rest (out_dir(m @ ''_latest.csv'' \<mapsto> rows)))"

definition export_latest_observations ::
    "services \<Rightarrow> (string list \<Rightarrow> string list) \<Rightarrow> Observation list \<Rightarrow> directory
      \<Rightarrow> py_error + directory" where
  "export_latest_observations sv set_iter observations out_dir =
     export_latest_loop sv observations (set_iter (map marketplace observations)) out_dir"

text \<open>
  \<open>d[k].append(v)\<close> on a \<open>defaultdict(list)\<close>, the dict being an association list in
  insertion order.
\<close>

fun append_to :: "'k \<Rightarrow> 'v \<Rightarrow> ('k \<times> 'v list) list \<Rightarrow> ('k \<times> 'v list) list" where
  "append_to k v [] = [(k, [v])]"
| "append_to k v ((k', vs) # rest) =
     (if k = k' then (k', vs @ [v]) # rest else (k', vs) # append_to k v rest)"

text \<open>\<open>np.median\<close> of a non-empty list.\<close>

definition median :: "real list \<Rightarrow> real" where
  "median a =
     (let s = sort a; n = length s
      in if even n then (s ! (n div 2 - 1) + s ! (n div 2)) / 2 else s ! (n div 2))"

text \<open>\<open>_export_timeseries\<close>; the data frame of a marketplace is sorted by its date column.\<close>

definition export_timeseries ::
    "services \<Rightarrow> Observation list \<Rightarrow> directory \<Rightarrow> py_error + directory" where
  "export_timeseries sv observations out_dir =
     (case map_raising
             (\<lambda>ob. case unit_price_usd sv ob of
                      Inl e \<Rightarrow> Inl e
                    | Inr p \<Rightarrow> Inr ((date_str ob, marketplace ob), p))
             observations of
        Inl e \<Rightarrow> Inl e
      | Inr entries \<Rightarrow>
          let daily_unit_prices =
                foldl (\<lambda>d (key, p). append_to key p d) [] entries;
              daily_medians =
                foldl (\<lambda>d ((ds, m), unit_prices). append_to m (ds, median unit_prices) d) []
                  daily_unit_prices
          in Inr (foldl (\<lambda>dir (k, v). dir(k @ ''_timeseries.csv'' \<mapsto> sort_key fst v))
                    out_dir daily_medians))"

section \<open>The export command\<close>

text \<open>
  \<open>_fetch_assignments\<close>: the rows of the query, in the order the query yields them,
  grouped by \<open>hit_id\<close>.
\<close>

definition fetch_assignments :: "Assignment list \<Rightarrow> (string \<times> Assignment list) list" where
  "fetch_assignments session =
     foldl (\<lambda>assignments a. append_to (Assignment.hit_id a) a assignments) [] session"

text \<open>
  The first loop of \<open>export\<close>. \<open>uuid4\<close> is a generator of identifiers: \<open>gen n\<close> is the
  identifier of the \<open>n\<close>-th observation constructed.
\<close>

fun consolidate_all ::
    "(nat \<Rightarrow> string) \<Rightarrow> nat \<Rightarrow> Assignment list list \<Rightarrow> py_error + Observation list" where
  "consolidate_all gen n [] = Inr []"
| "consolidate_all gen n (assignments # rest) =
     (case consolidate_assignments (gen n) assignments of
        Inl e \<Rightarrow> Inl e
      | Inr None \<Rightarrow> consolidate_all gen n rest
      | Inr (Some res) \<Rightarrow>
          (case consolidate_all gen (Suc n) rest of
             Inl e \<Rightarrow> Inl e
           | Inr all_observations \<Rightarrow> Inr (res # all_observations)))"

text \<open>
  \<open>export\<close>: the content of the output directory after a run that raises nothing. The
  directory is removed and made anew before the exporters write to it.
\<close>

definition export ::
    "services \<Rightarrow> (string list \<Rightarrow> string list) \<Rightarrow> (nat \<Rightarrow> string) \<Rightarrow> Assignment list
      \<Rightarrow> py_error + directory" where
  "export sv set_iter gen session =
     (let assignments_dict = fetch_assignments session in
      case consolidate_all gen 0 (map snd assignments_dict) of
        Inl e \<Rightarrow> Inl e
      | Inr all_observations \<Rightarrow>
          (case filter_outliers sv set_iter all_observations of
             Inl e \<Rightarrow> Inl e
           | Inr filtered_observations \<Rightarrow>
               (case export_timeseries sv filtered_observations Map.empty of
                  Inl e \<Rightarrow> Inl e
                | Inr out_dir \<Rightarrow>
                    export_latest_observations sv set_iter filtered_observations out_dir)))"

section \<open>Specification-side notions\<close>

text \<open>
  The words of the specification, to state the claims with: how often a report tuple
  occurs among a task's reports, the highest such count, and the majority tuple (the
  first tuple, in report order, that reaches the highest count).
\<close>

definition occurrences :: "Assignment list \<Rightarrow> report_tuple \<Rightarrow> nat" where
  "occurrences assignments t = count_list (map report_tuple assignments) t"

definition highest_count :: "Assignment list \<Rightarrow> nat" where
  "highest_count assignments =
     Max (set (map (occurrences assignments) (map report_tuple assignments)))"

definition majority_tuple :: "Assignment list \<Rightarrow> report_tuple option" where
  "majority_tuple assignments =
     find (\<lambda>t. occurrences assignments t = highest_count assignments)
       (map report_tuple assignments)"

text \<open>The order in which the keys of a dict appear: first insertion first.\<close>

definition first_seen :: "'a list \<Rightarrow> 'a list" where
  "first_seen ks = rev (remdups (rev ks))"

text \<open>The invariant the specification states for an observation.\<close>

definition positive_quantity :: "Observation \<Rightarrow> bool" where
  "positive_quantity ob = (case Observation.quantity ob of None \<Rightarrow> False | Some q \<Rightarrow> 0 < q)"

definition positive_price :: "Observation \<Rightarrow> bool" where
  "positive_price ob = (case price_cents ob of None \<Rightarrow> False | Some p \<Rightarrow> 0 < p)"

text \<open>
  The most recent date of a marketplace: the maximum of its date strings in the
  lexicographic order.
\<close>

definition latest_date :: "Observation list \<Rightarrow> string \<Rightarrow> string" where
  "latest_date observations m =
     Max (set (map date_str (filter (\<lambda>ob. marketplace ob = m) observations)))"

section \<open>Notions for the proofs\<close>

text \<open>
  The key of an observation's bucket, its unit price as a number (where it can be
  computed), and the observation without its identifier. Two lists of observations have
  the same buckets when, bucket by bucket, they hold the same observations in the same
  order, identifiers apart.
\<close>

definition bucket_key :: "Observation \<Rightarrow> string \<times> string" where
  "bucket_key ob = (marketplace ob, date_str ob)"

definition the_unit_price :: "services \<Rightarrow> Observation \<Rightarrow> real" where
  "the_unit_price sv ob = (case unit_price_usd sv ob of Inl e \<Rightarrow> 0 | Inr p \<Rightarrow> p)"

definition strip :: "Observation \<Rightarrow> Observation" where
  "strip ob = ob \<lparr> uuid := [] \<rparr>"

definition same_buckets :: "Observation list \<Rightarrow> Observation list \<Rightarrow> bool" where
  "same_buckets xs ys \<longleftrightarrow>
     (\<forall>k. map strip (filter (\<lambda>ob. bucket_key ob = k) xs) =
          map strip (filter (\<lambda>ob. bucket_key ob = k) ys))"

text \<open>
  The verdict of \<open>filter_bucket\<close> on one observation, written without identifiers, for
  the proofs below: \<open>bucket\<close> is the list \<open>curr_observations\<close> that the loop builds for
  the observation's marketplace and date, \<open>z_value\<close> is the entry of \<open>zscore\<close> for one
  value of the column, and \<open>within_threshold\<close> is the entry of \<open>condition\<close>, false for
  NaN as the comparison of the code is. \<open>retained\<close> is the verdict: the length test of
  the loop, or else the condition.
\<close>

definition bucket :: "Observation list \<Rightarrow> Observation \<Rightarrow> Observation list" where
  "bucket observations ob =
     filter (\<lambda>p. marketplace p = marketplace ob \<and> date_str p = date_str ob) observations"

definition z_value :: "real list \<Rightarrow> real \<Rightarrow> real option" where
  "z_value a x = (if std a = 0 then None else Some ((x - mean a) / std a))"

definition within_threshold :: "real list \<Rightarrow> real \<Rightarrow> bool" where
  "within_threshold a x = (case z_value a x of None \<Rightarrow> False | Some z \<Rightarrow> \<bar>z\<bar> < 1)"

definition retained :: "(Observation \<Rightarrow> real) \<Rightarrow> Observation list \<Rightarrow> Observation \<Rightarrow> bool" where
  "retained unit_price observations ob =
     (length (bucket observations ob) < 3
      \<or> within_threshold (map unit_price (bucket observations ob)) (unit_price ob))"

text \<open>
  The tables that the two exporters write for a marketplace, as functions of the list of
  filtered observations.
\<close>

definition day_key :: "Observation \<Rightarrow> string \<times> string" where
  "day_key ob = (date_str ob, marketplace ob)"

definition timeseries_rows :: "services \<Rightarrow> Observation list \<Rightarrow> string \<Rightarrow> csv_rows" where
  "timeseries_rows sv observations m =
     map (\<lambda>k. (fst k, median (map (the_unit_price sv) (filter (\<lambda>ob. day_key ob = k) observations))))
       (filter (\<lambda>k. snd k = m) (first_seen (map day_key observations)))"

definition latest_rows :: "services \<Rightarrow> Observation list \<Rightarrow> string \<Rightarrow> csv_rows" where
  "latest_rows sv observations m =
     sort_key snd (map (\<lambda>ob. (url ob, the_unit_price sv ob))
       (filter (\<lambda>ob. bucket_key ob = (m, latest_date observations m)) observations))"

section \<open>Example data\<close>

text \<open>
  Two tasks of one marketplace, reports for them, the observations made of them, and
  services that know the symbols \<open>US$\<close> and \<open>EUR\<close>.
\<close>

definition example_hit :: HIT where
  "example_hit = \<lparr> HIT.hit_id = ''H1'',
     creation_time = \<lparr> year = 2020, month = 4, day = 1, hour = 12, minute = 30, second = 0 \<rparr>,
     batch_name = ''batch_2020-04-01'', url_param = ''https://www.example.com/masks/1'',
     HIT.domain_name = ''www.example.com'' \<rparr>"

definition example_hit2 :: HIT where
  "example_hit2 = \<lparr> HIT.hit_id = ''H2'',
     creation_time = \<lparr> year = 2020, month = 4, day = 2, hour = 8, minute = 15, second = 0 \<rparr>,
     batch_name = ''batch_2020-04-02'', url_param = ''https://www.example.com/masks/2'',
     HIT.domain_name = ''www.example.com'' \<rparr>"

definition example_report ::
    "string \<Rightarrow> real option \<Rightarrow> int option \<Rightarrow> string option \<Rightarrow> bool \<Rightarrow> Assignment" where
  "example_report aid prc qty cur stock = \<lparr> Assignment.hit_id = ''H1'', assignment_id = aid,
     Assignment.in_stock = stock, price = prc, currency = cur, Assignment.quantity = qty,
     hit = example_hit \<rparr>"

definition example_session :: "Assignment list" where
  "example_session =
     [example_report ''A1'' (Some 1000) (Some 10) (Some ''$'') True,
      (example_report ''A3'' (Some 3000) (Some 10) (Some ''$'') True)
         \<lparr> Assignment.hit_id := ''H2'', hit := example_hit2 \<rparr>,
      example_report ''A2'' (Some 1000) (Some 10) (Some ''$'') True,
      (example_report ''A4'' (Some 3000) (Some 10) (Some ''$'') True)
         \<lparr> Assignment.hit_id := ''H2'', hit := example_hit2 \<rparr>]"

definition example_made :: "HIT \<Rightarrow> real \<Rightarrow> string \<Rightarrow> Observation" where
  "example_made h cents uid = \<lparr> datetime = creation_time h, price_cents = Some cents,
     currency_symbol = Some ''$'', quantity = Some 10, in_stock = True,
     domain_name = HIT.domain_name h, url = url_param h, uuid = uid \<rparr>"

definition example_files :: directory where
  "example_files =
     [''example_com_timeseries.csv'' \<mapsto> [(''2020-04-01'', 1), (''2020-04-02'', 3)],
      ''example_com_latest.csv'' \<mapsto> [(''https://www.example.com/masks/2'', 3)]]"

definition example_services :: services where
  "example_services = \<lparr>
     parse_alpha3 = (\<lambda>s. case s of
         None \<Rightarrow> Inl TypeError
       | Some x \<Rightarrow> if x = ''US$'' then Inr ''USD''
                  else if x = ''EUR'' then Inr ''EUR'' else Inl IndexError),
     currency_converter = Inr (\<lambda>amount code d.
         if code = ''EUR'' then Inr (amount * 11 / 10) else Inl ValueError) \<rparr>"

definition example_observation :: "string \<Rightarrow> string \<Rightarrow> nat \<Rightarrow> real \<Rightarrow> Observation" where
  "example_observation uid link d cents = \<lparr>
     datetime = \<lparr> year = 2024, month = 1, day = d, hour = 9, minute = 0, second = 0 \<rparr>,
     price_cents = Some cents, currency_symbol = Some ''$'', quantity = Some 10,
     in_stock = True, domain_name = ''www.example.com'', url = link, uuid = uid \<rparr>"

definition example_observations :: "Observation list" where
  "example_observations =
     [example_observation ''u1'' ''https://www.example.com/a'' 1 1000,
      example_observation ''u2'' ''https://www.example.com/b'' 2 3000,
      example_observation ''u3'' ''https://www.example.com/c'' 2 2000]"

definition identical_example :: "Observation list" where
  "identical_example =
     [example_observation ''u1'' ''https://www.example.com/a'' 1 10000,
      example_observation ''u2'' ''https://www.example.com/b'' 1 10000,
      example_observation ''u3'' ''https://www.example.com/c'' 1 10000]"

section \<open>Properties of the consolidator\<close>

lemma first_seen_snoc:
  "first_seen (ks @ [k]) = (if k \<in> set ks then first_seen ks else first_seen ks @ [k])"
  by (simp add: first_seen_def)

lemma set_first_seen [simp]: "set (first_seen ks) = set ks"
  by (simp add: first_seen_def)

lemma distinct_first_seen [simp]: "distinct (first_seen ks)"
  by (simp add: first_seen_def)

lemma incr_tabulate:
  "distinct xs \<Longrightarrow>
   incr t (map (\<lambda>k. (k, f k)) xs) =
     (if t \<in> set xs then map (\<lambda>k. (k, if k = t then f k + 1 else f k)) xs
      else map (\<lambda>k. (k, f k)) xs @ [(t, 1)])"
  by (induction xs) auto

lemma count_list_snoc: "count_list (ks @ [k]) t = count_list ks t + (if k = t then 1 else 0)"
  by (induction ks) auto

lemma foldl_incr_tabulate:
  "foldl (\<lambda>c k. incr k c) [] ks = map (\<lambda>k. (k, count_list ks k)) (first_seen ks)"
proof (induction ks rule: rev_induct)
  case Nil
  show ?case by (simp add: first_seen_def)
next
  case (snoc k ks)
  show ?case
    by (auto simp: snoc.IH incr_tabulate first_seen_snoc count_list_snoc count_list_0_iff)
qed

lemma count_tuples_tabulate:
  "count_tuples as =
     map (\<lambda>k. (k, count_list (map report_tuple as) k)) (first_seen (map report_tuple as))"
proof -
  have "count_tuples as = foldl (\<lambda>c k. incr k c) [] (map report_tuple as)"
    by (simp add: count_tuples_def foldl_map)
  then show ?thesis by (simp add: foldl_incr_tabulate)
qed

lemma find_snoc:
  "find P (xs @ [x]) = (case find P xs of None \<Rightarrow> (if P x then Some x else None) | Some y \<Rightarrow> Some y)"
  by (induction xs) auto

lemma find_first_seen: "find P (first_seen ks) = find P ks"
proof (induction ks rule: rev_induct)
  case Nil
  show ?case by (simp add: first_seen_def)
next
  case (snoc k ks)
  show ?case
    by (auto simp: first_seen_snoc find_snoc snoc.IH find_None_iff split: option.splits)
qed

lemma py_max_Max:
  assumes "ns \<noteq> []"
  shows "py_max ns = Inr (Max (set ns))"
proof (cases ns)
  case Nil
  with assms show ?thesis by simp
next
  case (Cons n rest)
  have "fold max rest n = Max (set (n # rest))"
    by (rule Max.set_eq_fold [symmetric])
  with Cons show ?thesis by (simp add: py_max_def)
qed

lemma find_tabulate:
  "find (\<lambda>(k, n). n = m) (map (\<lambda>k. (k, f k)) xs) =
     map_option (\<lambda>k. (k, f k)) (find (\<lambda>k. f k = m) xs)"
  by (induction xs) auto

lemma consolidate_by_counts:
  assumes "assignments = first # rest"
  shows "consolidate_assignments fresh_uuid assignments =
     (if 2 \<le> highest_count assignments then
        (case majority_tuple assignments of
           None \<Rightarrow> Inl StopIteration
         | Some (prc, qty, cur, stock) \<Rightarrow>
             (case check_legit_quantity qty of
                Inl e \<Rightarrow> Inl e
              | Inr legit \<Rightarrow>
                  if \<not> legit then Inr None
                  else if prc = Some 0 then Inr None
                  else Inr (Some \<lparr>
                    datetime = creation_time (Assignment.hit first),
                    price_cents = prc,
                    currency_symbol = cur,
                    quantity = qty,
                    in_stock = stock,
                    domain_name = HIT.domain_name (Assignment.hit first),
                    url = url_param (Assignment.hit first),
                    uuid = fresh_uuid \<rparr>)))
      else Inr None)"
proof -
  let ?ks = "map report_tuple assignments"
  let ?c = "count_tuples assignments"
  have c: "?c = map (\<lambda>k. (k, occurrences assignments k)) (first_seen ?ks)"
    by (simp add: count_tuples_tabulate occurrences_def)
  have "set (first_seen ?ks) \<noteq> {}"
    using assms by simp
  then have "first_seen ?ks \<noteq> []"
    by (metis set_empty)
  then have ne: "map snd ?c \<noteq> []"
    by (simp add: c)
  have "set (map snd ?c) = set (map (occurrences assignments) ?ks)"
    by (simp add: c image_image)
  then have m: "py_max (map snd ?c) = Inr (highest_count assignments)"
    using py_max_Max [OF ne] by (simp add: highest_count_def)
  have f: "find (\<lambda>(k, n). n = highest_count assignments) ?c =
      map_option (\<lambda>k. (k, occurrences assignments k)) (majority_tuple assignments)"
    by (simp add: c find_tabulate find_first_seen majority_tuple_def)
  show ?thesis
    unfolding consolidate_assignments_def assms list.case Let_def
    unfolding assms [symmetric] m sum.case f MIN_MATCHING_RESULT_def
    by (cases "majority_tuple assignments") (auto split: prod.splits sum.splits)
qed

lemma majority_tuple_exists:
  assumes "assignments \<noteq> []"
  shows "\<exists>t. majority_tuple assignments = Some t \<and> t \<in> set (map report_tuple assignments)
           \<and> (\<forall>t'. occurrences assignments t' \<le> occurrences assignments t)"
proof -
  let ?ks = "map report_tuple assignments"
  let ?S = "set (map (occurrences assignments) ?ks)"
  have fin: "finite ?S" and ne: "?S \<noteq> {}"
    using assms by simp_all
  have "highest_count assignments \<in> ?S"
    unfolding highest_count_def by (rule Max_in [OF fin ne])
  then have "\<exists>t. majority_tuple assignments = Some t"
    unfolding majority_tuple_def by (cases "find (\<lambda>t. occurrences assignments t = highest_count assignments) ?ks")
      (auto simp: find_None_iff)
  then obtain t where t: "majority_tuple assignments = Some t" ..
  then have mem: "t \<in> set ?ks" and top: "occurrences assignments t = highest_count assignments"
    unfolding majority_tuple_def by (auto simp: find_Some_iff)
  have "occurrences assignments t' \<le> occurrences assignments t" for t'
  proof (cases "t' \<in> set ?ks")
    case True
    then have "occurrences assignments t' \<in> ?S" by auto
    then show ?thesis
      unfolding top highest_count_def by (rule Max_ge [OF fin])
  next
    case False
    then show ?thesis by (simp add: occurrences_def)
  qed
  with t mem show ?thesis by blast
qed

text \<open>
  Claim C10: on an empty list of reports \<open>_consolidate_assignments\<close> returns
  \<open>None\<close> and raises nothing.
\<close>

theorem consolidate_empty:
  "consolidate_assignments fresh_uuid [] = Inr None"
  by (simp add: consolidate_assignments_def)

lemma example_counts [simp]:
  "highest_count [example_report a1 p q c s, example_report a2 p q c s] = 2"
  "majority_tuple [example_report a1 p q c s, example_report a2 p q c s] = Some (p, q, c, s)"
  "occurrences [example_report a1 p q c s, example_report a2 p q c s] (p, q, c, s) = 2"
  by (simp_all add: highest_count_def majority_tuple_def occurrences_def report_tuple_def
      example_report_def)

lemma example_single [simp]:
  "highest_count [example_report a1 p q c s] = 1"
  by (simp_all add: highest_count_def majority_tuple_def occurrences_def report_tuple_def
      example_report_def)

text \<open>
  Claim C3: for a non-empty list of reports of one task, grouped by the tuple (price,
  quantity, currency, in_stock): if the highest occurrence count is below 2 the result is
  \<open>None\<close>; if it is at least 2 and the majority tuple passes the quantity filter and has
  a nonzero price, the result is the observation that carries the majority tuple's price,
  quantity, currency and in-stock flag with the task's creation time, URL and domain
  name.
\<close>

theorem consolidate_majority:
  assumes "assignments \<noteq> []" and "list_all (\<lambda>a. Assignment.hit a = task) assignments"
  shows "(highest_count assignments < 2 \<longrightarrow>
            consolidate_assignments fresh_uuid assignments = Inr None)
       \<and> (2 \<le> highest_count assignments
            \<and> majority_tuple assignments = Some (prc, Some q, cur, stock)
            \<and> check_legit_quantity (Some q) = Inr True \<and> prc \<noteq> Some 0 \<longrightarrow>
            consolidate_assignments fresh_uuid assignments =
              Inr (Some \<lparr> datetime = creation_time task, price_cents = prc,
                currency_symbol = cur, quantity = Some q, in_stock = stock,
                domain_name = HIT.domain_name task, url = url_param task,
                uuid = fresh_uuid \<rparr>))"
proof -
  from assms(1) obtain first rest where split: "assignments = first # rest"
    by (cases assignments) auto
  with assms(2) have "Assignment.hit first = task"
    by simp
  then show ?thesis
    by (simp add: consolidate_by_counts [OF split])
qed

theorem consolidate_majority_witness:
  "consolidate_assignments ''u1'' [example_report ''A1'' (Some 10) (Some 5) (Some ''$'') True]
     = Inr None
   \<and> consolidate_assignments ''u1''
       [example_report ''A1'' (Some 10) (Some 5) (Some ''$'') True,
        example_report ''A2'' (Some 10) (Some 5) (Some ''$'') True]
     = Inr (Some \<lparr> datetime = creation_time example_hit, price_cents = Some 10,
         currency_symbol = Some ''$'', quantity = Some 5, in_stock = True,
         domain_name = HIT.domain_name example_hit, url = url_param example_hit,
         uuid = ''u1'' \<rparr>)"
proof -
  let ?r = "\<lambda>a. example_report a (Some 10) (Some 5) (Some ''$'') True"
  have one: "[?r ''A1''] \<noteq> []" and two: "[?r ''A1'', ?r ''A2''] \<noteq> []"
    by simp_all
  have h1: "list_all (\<lambda>a. Assignment.hit a = example_hit) [?r ''A1'']"
    and h2: "list_all (\<lambda>a. Assignment.hit a = example_hit) [?r ''A1'', ?r ''A2'']"
    by (simp_all add: example_report_def)
  have legit: "check_legit_quantity (Some 5) = Inr True"
    by (simp add: check_legit_quantity_def)
  show ?thesis
    using consolidate_majority [OF one h1, where fresh_uuid = "''u1''"]
      consolidate_majority [OF two h2, where fresh_uuid = "''u1''" and prc = "Some 10"
        and q = 5 and cur = "Some ''$''" and stock = True] legit
    by simp
qed

lemma example_report_hit [simp]: "Assignment.hit (example_report a p q c s) = example_hit"
  by (simp add: example_report_def)

lemma check_legit_quantity_Some:
  "check_legit_quantity (Some q) = Inr (5 \<le> q \<and> q \<le> 500 \<and> 5 dvd q)"
  by (simp add: check_legit_quantity_def dvd_eq_mod_eq_0)

text \<open>
  Claim C5: when the majority tuple (count at least 2) has a quantity that is not a
  multiple of 5 or lies outside the range 5 to 500, both ends included, the result is
  \<open>None\<close>; a quantity that is a multiple of 5 inside the range, 500 included, passes the
  quantity filter.
\<close>

theorem consolidate_quantity_filter:
  "(majority_tuple assignments = Some (prc, Some q, cur, stock)
      \<and> 2 \<le> occurrences assignments (prc, Some q, cur, stock)
      \<and> \<not> (5 dvd q \<and> 5 \<le> q \<and> q \<le> 500) \<longrightarrow>
      consolidate_assignments fresh_uuid assignments = Inr None)
   \<and> (5 dvd q' \<and> 5 \<le> q' \<and> q' \<le> 500 \<longrightarrow> check_legit_quantity (Some q') = Inr True)"
proof -
  have "consolidate_assignments fresh_uuid assignments = Inr None"
    if m: "majority_tuple assignments = Some (prc, Some q, cur, stock)"
      and bad: "\<not> (5 dvd q \<and> 5 \<le> q \<and> q \<le> 500)"
  proof (cases assignments)
    case Nil
    then show ?thesis by (simp add: consolidate_assignments_def)
  next
    case (Cons first rest)
    from bad have "check_legit_quantity (Some q) = Inr False"
      by (auto simp: check_legit_quantity_Some)
    then show ?thesis
      by (simp add: consolidate_by_counts [OF Cons] m)
  qed
  then show ?thesis
    by (auto simp: check_legit_quantity_Some)
qed

theorem consolidate_quantity_filter_witness:
  "consolidate_assignments ''u1''
       [example_report ''A1'' (Some 1000) (Some 7) (Some ''$'') True,
        example_report ''A2'' (Some 1000) (Some 7) (Some ''$'') True] = Inr None
   \<and> consolidate_assignments ''u1''
       [example_report ''A1'' (Some 1000) (Some 505) (Some ''$'') True,
        example_report ''A2'' (Some 1000) (Some 505) (Some ''$'') True] = Inr None
   \<and> check_legit_quantity (Some 500) = Inr True"
  using consolidate_quantity_filter [where fresh_uuid = "''u1''" and prc = "Some 1000" and q = 7
      and cur = "Some ''$''" and stock = True and q' = 500
      and assignments = "[example_report ''A1'' (Some 1000) (Some 7) (Some ''$'') True,
        example_report ''A2'' (Some 1000) (Some 7) (Some ''$'') True]"]
    consolidate_quantity_filter [where fresh_uuid = "''u1''" and prc = "Some 1000" and q = 505
      and cur = "Some ''$''" and stock = True and q' = 500
      and assignments = "[example_report ''A1'' (Some 1000) (Some 505) (Some ''$'') True,
        example_report ''A2'' (Some 1000) (Some 505) (Some ''$'') True]"]
  by simp

text \<open>
  Claim C6 says that the consolidator never raises. Two reports of an out-of-stock
  product that both leave price, currency and quantity empty form a majority whose
  quantity is \<open>None\<close>, and \<open>_check_legit_quantity\<close> raises \<open>TypeError\<close> on it.
\<close>

theorem consolidate_missing_quantity_raises:
  "consolidate_assignments ''u1''
     [example_report ''A1'' None None None False,
      example_report ''A2'' None None None False] = Inl TypeError"
proof -
  let ?as = "[example_report ''A1'' None None None False,
      example_report ''A2'' None None None False]"
  have "?as = example_report ''A1'' None None None False # [example_report ''A2'' None None None False]"
    by simp
  from consolidate_by_counts [OF this] show ?thesis
    by (simp add: check_legit_quantity_def)
qed

text \<open>
  Claim C4, amended: every observation the consolidator produces has a quantity above
  zero and a price other than zero (the price can be negative or missing); and a majority
  tuple whose price is zero and whose quantity is an integer gives \<open>None\<close>.
\<close>

theorem consolidate_invariant:
  "(consolidate_assignments fresh_uuid assignments = Inr (Some ob) \<longrightarrow>
      positive_quantity ob \<and> price_cents ob \<noteq> Some 0)
   \<and> (majority_tuple assignments = Some (Some 0, Some q, cur, stock) \<longrightarrow>
      consolidate_assignments fresh_uuid assignments = Inr None)"
proof (cases assignments)
  case Nil
  then show ?thesis by (simp add: consolidate_assignments_def majority_tuple_def)
next
  case (Cons first rest)
  show ?thesis
    unfolding consolidate_by_counts [OF Cons]
    by (auto simp: check_legit_quantity_def positive_quantity_def
        split: option.splits prod.splits if_splits)
qed

theorem consolidate_invariant_witness:
  "consolidate_assignments ''u1''
       [example_report ''A1'' (Some 1000) (Some 50) (Some ''$'') True,
        example_report ''A2'' (Some 1000) (Some 50) (Some ''$'') True]
     = Inr (Some \<lparr> datetime = creation_time example_hit, price_cents = Some 1000,
         currency_symbol = Some ''$'', quantity = Some 50, in_stock = True,
         domain_name = HIT.domain_name example_hit, url = url_param example_hit,
         uuid = ''u1'' \<rparr>)
   \<and> positive_quantity \<lparr> datetime = creation_time example_hit, price_cents = Some 1000,
         currency_symbol = Some ''$'', quantity = Some 50, in_stock = True,
         domain_name = HIT.domain_name example_hit, url = url_param example_hit,
         uuid = ''u1'' \<rparr>
   \<and> consolidate_assignments ''u1''
       [example_report ''A1'' (Some 0) (Some 50) (Some ''$'') True,
        example_report ''A2'' (Some 0) (Some 50) (Some ''$'') True] = Inr None"
proof -
  let ?r = "\<lambda>a p. example_report a (Some p) (Some 50) (Some ''$'') True"
  let ?ob = "\<lparr> datetime = creation_time example_hit, price_cents = Some 1000,
         currency_symbol = Some ''$'', quantity = Some 50, in_stock = True,
         domain_name = HIT.domain_name example_hit, url = url_param example_hit,
         uuid = ''u1'' \<rparr>"
  have "[?r ''A1'' 1000, ?r ''A2'' 1000] = ?r ''A1'' 1000 # [?r ''A2'' 1000]"
    by simp
  from consolidate_by_counts [OF this, of "''u1''"]
  have made: "consolidate_assignments ''u1'' [?r ''A1'' 1000, ?r ''A2'' 1000] = Inr (Some ?ob)"
    by (simp add: check_legit_quantity_def)
  show ?thesis
    using made
      consolidate_invariant [where assignments = "[?r ''A1'' 1000, ?r ''A2'' 1000]"
        and fresh_uuid = "''u1''" and ob = ?ob]
      consolidate_invariant [where assignments = "[?r ''A1'' 0, ?r ''A2'' 0]"
        and fresh_uuid = "''u1''" and q = 50 and cur = "Some ''$''" and stock = True]
    by simp
qed

text \<open>
  Claim C4 as stated (every observation has a price above zero) fails: two agreeing
  reports with the price -500 give an observation with that price.
\<close>

theorem consolidate_negative_price_counterexample:
  "consolidate_assignments ''u1''
       [example_report ''A1'' (Some (- 500)) (Some 50) (Some ''$'') True,
        example_report ''A2'' (Some (- 500)) (Some 50) (Some ''$'') True]
     = Inr (Some \<lparr> datetime = creation_time example_hit, price_cents = Some (- 500),
         currency_symbol = Some ''$'', quantity = Some 50, in_stock = True,
         domain_name = HIT.domain_name example_hit, url = url_param example_hit,
         uuid = ''u1'' \<rparr>)
   \<and> \<not> positive_price \<lparr> datetime = creation_time example_hit, price_cents = Some (- 500),
         currency_symbol = Some ''$'', quantity = Some 50, in_stock = True,
         domain_name = HIT.domain_name example_hit, url = url_param example_hit,
         uuid = ''u1'' \<rparr>"
proof -
  let ?r = "\<lambda>a. example_report a (Some (- 500)) (Some 50) (Some ''$'') True"
  have "[?r ''A1'', ?r ''A2''] = ?r ''A1'' # [?r ''A2'']"
    by simp
  from consolidate_by_counts [OF this, of "''u1''"] show ?thesis
    by (simp add: check_legit_quantity_def positive_price_def)
qed

section \<open>Properties of the derived fields\<close>

lemma zero_padded_4: "zero_padded 4 n =
    [digit_char (n div 1000), digit_char (n div 100), digit_char (n div 10), digit_char n]"
proof -
  have four: "(4::nat) = Suc (Suc (Suc (Suc 0)))"
    by simp
  show ?thesis
    unfolding four by (simp add: div_mult2_eq [symmetric])
qed

lemma zero_padded_2: "zero_padded 2 n = [digit_char (n div 10), digit_char n]"
proof -
  have two: "(2::nat) = Suc (Suc 0)"
    by simp
  show ?thesis
    unfolding two by simp
qed

lemma date_str_digits:
  "date_str ob =
     [digit_char (year (datetime ob) div 1000), digit_char (year (datetime ob) div 100),
      digit_char (year (datetime ob) div 10), digit_char (year (datetime ob)), CHR ''-'',
      digit_char (month (datetime ob) div 10), digit_char (month (datetime ob)), CHR ''-'',
      digit_char (day (datetime ob) div 10), digit_char (day (datetime ob))]"
  by (simp add: date_str_def date_def zero_padded_4 zero_padded_2)

lemma example_observation_fields [simp]:
  "marketplace (example_observation uid link d cents) = ''example_com''"
  "url (example_observation uid link d cents) = link"
  "uuid (example_observation uid link d cents) = uid"
  "unit_price_usd sv (example_observation uid link d cents) = Inr (cents / 1000)"
  "date_str (example_observation uid link (Suc 0) cents) = ''2024-01-01''"
  "date_str (example_observation uid link 2 cents) = ''2024-01-02''"
  by (simp_all add: example_observation_def marketplace_def unit_price_usd_def price_usd_def
      iso_currency_def price_def date_str_digits digit_char_def)

text \<open>
  Claim C8: for an observation whose currency symbol is the dollar sign or resolves to
  USD, the USD price is the price itself, with no conversion, so the unit price in USD
  is the price divided by the quantity.
\<close>

theorem usd_price_unchanged:
  assumes "currency_symbol ob = Some ''$'' \<or> iso_currency sv ob = Inr ''USD''"
  shows "price_usd sv ob = price ob
       \<and> (Observation.quantity ob = Some q \<and> q \<noteq> 0 \<and> price ob = Inr p \<longrightarrow>
            unit_price_usd sv ob = Inr (p / real_of_int q))"
proof -
  from assms have "iso_currency sv ob = Inr ''USD''"
    by (auto simp: iso_currency_def)
  then have "price_usd sv ob = price ob"
    by (simp add: price_usd_def)
  then show ?thesis
    by (simp add: unit_price_usd_def)
qed

theorem usd_price_unchanged_witness:
  "price_usd example_services (example_observation ''u1'' ''https://www.example.com/a'' 1 1250)
     = Inr (25 / 2)
   \<and> unit_price_usd example_services
       (example_observation ''u1'' ''https://www.example.com/a'' 1 1250) = Inr (5 / 4)
   \<and> iso_currency example_services
       ((example_observation ''u1'' ''https://www.example.com/a'' 1 1250)
          \<lparr> currency_symbol := Some ''US$'' \<rparr>) = Inr ''USD''
   \<and> price_usd example_services
       ((example_observation ''u1'' ''https://www.example.com/a'' 1 1250)
          \<lparr> currency_symbol := Some ''US$'' \<rparr>) = Inr (25 / 2)"
proof -
  let ?ob = "example_observation ''u1'' ''https://www.example.com/a'' 1 1250"
  let ?ob' = "?ob \<lparr> currency_symbol := Some ''US$'' \<rparr>"
  have sym: "currency_symbol ?ob = Some ''$'' \<or> iso_currency example_services ?ob = Inr ''USD''"
    by (simp add: example_observation_def)
  have usd: "iso_currency example_services ?ob' = Inr ''USD''"
    by (simp add: iso_currency_def example_services_def)
  then have sym': "currency_symbol ?ob' = Some ''$'' \<or> iso_currency example_services ?ob' = Inr ''USD''"
    by simp
  have p: "price ?ob = Inr (25 / 2)" "price ?ob' = Inr (25 / 2)"
    and q: "Observation.quantity ?ob = Some 10"
    by (simp_all add: price_def example_observation_def)
  show ?thesis
    using usd_price_unchanged [OF sym, where q = 10 and p = "25 / 2"]
      usd_price_unchanged [OF sym', where q = 10 and p = "25 / 2"] p q usd
    by simp
qed

section \<open>Properties of the outlier filter\<close>

lemma map_raising_all:
  "list_all (\<lambda>x. f x = Inr (g x)) xs \<Longrightarrow> map_raising f xs = Inr (map g xs)"
  by (induction xs) auto

lemma list_all_filter: "list_all P xs \<Longrightarrow> list_all P (filter Q xs)"
  by (induction xs) auto

lemma list_all_row:
  "list_all (\<lambda>x. f x = Inr (g x)) xs \<Longrightarrow>
   list_all (\<lambda>x. (case f x of Inl e \<Rightarrow> Inl e | Inr p \<Rightarrow> Inr (h x, p)) = Inr (h x, g x)) xs"
  by (induction xs) auto

lemma map_raising_Inr:
  "map_raising f xs = Inr ys \<Longrightarrow> list_all (\<lambda>x. \<exists>y. f x = Inr y) xs"
  by (induction xs arbitrary: ys) (auto split: sum.splits)

lemma zscore_z_value: "zscore a = map (z_value a) a"
  by (simp add: zscore_def z_value_def Let_def)

lemma allowed_uuids:
  "set (map fst (filter snd (zip (map f xs) (map g xs)))) = f ` {x \<in> set xs. g x}"
  by (induction xs) auto

lemma filter_by_uuid:
  assumes "distinct (map f xs)"
  shows "filter (\<lambda>x. f x \<in> f ` {y \<in> set xs. g y}) xs = filter g xs"
proof (rule filter_cong [OF refl])
  fix x assume "x \<in> set xs"
  with assms show "(f x \<in> f ` {y \<in> set xs. g y}) = g x"
    by (auto simp: distinct_map dest: inj_onD)
qed

lemma filter_bucket_kept:
  assumes "distinct (map uuid cur)"
    and "list_all (\<lambda>ob. unit_price_usd sv ob = Inr (unit_price ob)) cur"
  shows "filter_bucket sv cur =
     Inr (filter (\<lambda>ob. length cur < 3 \<or> within_threshold (map unit_price cur) (unit_price ob)) cur)"
proof -
  have prices: "map_raising (unit_price_usd sv) cur = Inr (map unit_price cur)"
    using assms(2) by (rule map_raising_all)
  let ?a = "map unit_price cur"
  have cond: "map (\<lambda>z. case z of None \<Rightarrow> False | Some v \<Rightarrow> \<bar>v\<bar> < OUTLIER_THRESHOLD) (zscore ?a)
      = map (\<lambda>ob. within_threshold ?a (unit_price ob)) cur"
    by (simp add: zscore_z_value within_threshold_def OUTLIER_THRESHOLD_def)
  show ?thesis
  proof (cases "length cur < 3")
    case True
    then show ?thesis
      by (simp add: filter_bucket_def prices)
  next
    case False
    then show ?thesis
      unfolding filter_bucket_def Let_def prices sum.case cond allowed_uuids
      by (simp add: filter_by_uuid [OF assms(1)])
  qed
qed

lemma filter_loop_concat:
  assumes "list_all (\<lambda>(m, d). filter_bucket sv
      (filter (\<lambda>ob. marketplace ob = m \<and> date_str ob = d) observations) = Inr (kept (m, d))) ks"
  shows "filter_loop sv observations ks results = Inr (results @ concat (map kept ks))"
  using assms by (induction ks arbitrary: results) auto

lemma filter_outliers_concat:
  assumes "set_iterator set_iter"
    and "distinct (map uuid observations)"
    and "list_all (\<lambda>ob. unit_price_usd sv ob = Inr (unit_price ob)) observations"
  shows "filter_outliers sv set_iter observations =
     Inr (concat (map
       (\<lambda>k. filter (\<lambda>ob. bucket_key ob = k \<and> retained unit_price observations ob) observations)
       (List.product (set_iter (map marketplace observations))
          (set_iter (map date_str observations)))))"
proof -
  let ?ks = "List.product (set_iter (map marketplace observations))
      (set_iter (map date_str observations))"
  let ?kept = "\<lambda>k. filter (\<lambda>ob. bucket_key ob = k \<and> retained unit_price observations ob)
      observations"
  have "filter_bucket sv (filter (\<lambda>ob. marketplace ob = m \<and> date_str ob = d) observations)
      = Inr (?kept (m, d))" for m d
  proof -
    let ?cur = "filter (\<lambda>ob. marketplace ob = m \<and> date_str ob = d) observations"
    have "distinct (map uuid ?cur)"
      using assms(2) by (rule distinct_map_filter)
    moreover have "list_all (\<lambda>ob. unit_price_usd sv ob = Inr (unit_price ob)) ?cur"
      using assms(3) by (rule list_all_filter)
    ultimately have "filter_bucket sv ?cur =
        Inr (filter (\<lambda>ob. length ?cur < 3 \<or> within_threshold (map unit_price ?cur) (unit_price ob)) ?cur)"
      by (rule filter_bucket_kept)
    also have "filter (\<lambda>ob. length ?cur < 3 \<or> within_threshold (map unit_price ?cur) (unit_price ob)) ?cur
        = ?kept (m, d)"
      unfolding filter_filter
      by (rule filter_cong [OF refl]) (auto simp: retained_def bucket_def bucket_key_def)
    finally show ?thesis .
  qed
  then have "list_all (\<lambda>(m, d). filter_bucket sv
      (filter (\<lambda>ob. marketplace ob = m \<and> date_str ob = d) observations) = Inr (?kept (m, d))) ?ks"
    by (simp add: list_all_iff)
  then have "filter_loop sv observations ?ks [] = Inr ([] @ concat (map ?kept ?ks))"
    by (rule filter_loop_concat [where kept = ?kept])
  then show ?thesis
    unfolding filter_outliers_def Let_def by simp
qed

text \<open>
  In a bucket of 3 or more observations that all have the same unit price the standard
  deviation is zero, and the verdict on each of them is to drop it.
\<close>

lemma std_identical:
  assumes "a \<noteq> []" and "\<forall>x \<in> set a. x = c"
  shows "std a = 0"
proof -
  from assms(2) have a: "a = replicate (length a) c"
    by (metis replicate_length_same)
  have n: "real (length a) \<noteq> 0"
    using assms(1) by simp
  have "sum_list a = real (length a) * c"
    by (subst a) (simp add: sum_list_replicate)
  then have m: "mean a = c"
    using n by (simp add: mean_def)
  have "map (\<lambda>x. (x - c)\<^sup>2) a = replicate (length a) 0"
    by (subst a) simp
  then have "mean (map (\<lambda>x. (x - mean a)\<^sup>2) a) = 0"
    unfolding m by (simp add: mean_def sum_list_replicate)
  then show ?thesis
    by (simp add: std_def)
qed

lemma identical_prices_not_retained:
  assumes "3 \<le> length (bucket observations ob)"
    and "\<forall>p \<in> set (bucket observations ob). unit_price p = c"
  shows "\<not> retained unit_price observations ob"
proof -
  let ?a = "map unit_price (bucket observations ob)"
  from assms(1) have "?a \<noteq> []"
    by auto
  moreover from assms(2) have "\<forall>x \<in> set ?a. x = c"
    by auto
  ultimately have "std ?a = 0"
    by (rule std_identical)
  with assms(1) show ?thesis
    by (simp add: retained_def within_threshold_def z_value_def)
qed

lemma zscore_identical: "zscore [10, 10, 10] = [None, None, None]"
  by (simp add: zscore_def mean_def std_def Let_def)

lemma filter_bucket_identical:
  "filter_bucket example_services
     [example_observation ''u1'' ''https://www.example.com/a'' (Suc 0) 10000,
      example_observation ''u2'' ''https://www.example.com/b'' (Suc 0) 10000,
      example_observation ''u3'' ''https://www.example.com/c'' (Suc 0) 10000] = Inr []"
  unfolding filter_bucket_def Let_def
  by (simp add: zscore_identical)

text \<open>
  Claim C1 says that a bucket of 3 or more observations with identical unit prices is
  retained whole. The standard deviation of such a bucket is zero, every z-score is NaN,
  no comparison with the threshold holds, and the filter drops the whole bucket.
\<close>

theorem filter_outliers_identical_prices_dropped:
  "filter_outliers example_services remdups identical_example = Inr []"
  by (simp add: filter_outliers_def identical_example_def filter_bucket_identical)

section \<open>Properties of the latest-snapshot exporter\<close>

lemma sorted_le_last:
  fixes xs :: "'a::linorder list"
  shows "sorted xs \<Longrightarrow> y \<in> set xs \<Longrightarrow> y \<le> last xs"
  by (induction xs) auto

lemma last_sort_Max:
  fixes xs :: "'a::linorder list"
  assumes "xs \<noteq> []"
  shows "last (sort xs) = Max (set xs)"
proof -
  have ne: "sort xs \<noteq> []"
    using assms by (metis length_0_conv length_sort)
  have "Max (set (sort xs)) = last (sort xs)"
  proof (rule Max_eqI)
    show "finite (set (sort xs))" by simp
    show "last (sort xs) \<in> set (sort xs)" using ne by (rule last_in_set)
    show "y \<le> last (sort xs)" if "y \<in> set (sort xs)" for y
      using that by (intro sorted_le_last) simp_all
  qed
  then show ?thesis by simp
qed

lemma export_latest_marketplace_value:
  assumes "m \<in> set (map marketplace observations)"
    and "list_all (\<lambda>ob. unit_price_usd sv ob = Inr (unit_price ob))
           (filter (\<lambda>ob. marketplace ob = m \<and> date_str ob = latest_date observations m)
              observations)"
  shows "export_latest_marketplace sv observations m =
     Inr (sort_key snd (map (\<lambda>ob. (url ob, unit_price ob))
       (filter (\<lambda>ob. marketplace ob = m \<and> date_str ob = latest_date observations m)
          observations)))"
proof -
  let ?mine = "filter (\<lambda>ob. marketplace ob = m) observations"
  let ?row = "\<lambda>ob. case unit_price_usd sv ob of Inl e \<Rightarrow> Inl e | Inr p \<Rightarrow> Inr (url ob, p)"
  from assms(1) have "?mine \<noteq> []"
    by (auto simp: filter_empty_conv)
  then have ne: "map date_str ?mine \<noteq> []"
    by simp
  then have "sort (map date_str ?mine) \<noteq> []"
    by (metis length_0_conv length_sort)
  then obtain d ds where ds: "sort (map date_str ?mine) = d # ds"
    by (cases "sort (map date_str ?mine)") auto
  have latest: "last (d # ds) = latest_date observations m"
    unfolding ds [symmetric] latest_date_def by (rule last_sort_Max [OF ne])
  let ?sel = "filter (\<lambda>ob. date_str ob = latest_date observations m) ?mine"
  have sel: "?sel = filter (\<lambda>ob. marketplace ob = m \<and> date_str ob = latest_date observations m)
      observations"
    by (simp add: conj_commute)
  have "list_all (\<lambda>ob. ?row ob = Inr (url ob, unit_price ob)) ?sel"
    using assms(2) unfolding sel [symmetric] by (rule list_all_row)
  then have items: "map_raising ?row ?sel = Inr (map (\<lambda>ob. (url ob, unit_price ob)) ?sel)"
    by (rule map_raising_all)
  have "export_latest_marketplace sv observations m =
      Inr (sort_key snd (map (\<lambda>ob. (url ob, unit_price ob)) ?sel))"
    unfolding export_latest_marketplace_def Let_def ds list.case latest items by simp
  with sel show ?thesis
    by simp
qed

text \<open>
  Claim C9: for a marketplace of the filtered observations, the latest-snapshot export
  holds exactly the rows (URL, unit price in USD) of that marketplace's observations
  whose date string is the lexicographic maximum of the marketplace's date strings, and
  the rows are sorted by ascending unit price.
\<close>

theorem latest_snapshot_rows:
  assumes "m \<in> set (map marketplace observations)"
    and "list_all (\<lambda>ob. unit_price_usd sv ob = Inr (unit_price ob))
           (filter (\<lambda>ob. marketplace ob = m \<and> date_str ob = latest_date observations m)
              observations)"
  shows "\<exists>rows. export_latest_marketplace sv observations m = Inr rows
           \<and> mset rows = mset (map (\<lambda>ob. (url ob, unit_price ob))
                (filter (\<lambda>ob. marketplace ob = m \<and> date_str ob = latest_date observations m)
                   observations))
           \<and> sorted (map snd rows)"
  using export_latest_marketplace_value [OF assms] by simp

theorem latest_snapshot_rows_witness:
  "''example_com'' \<in> set (map marketplace example_observations)
   \<and> list_all (\<lambda>ob. unit_price_usd example_services ob = Inr (the (price_cents ob) / 1000))
       (filter (\<lambda>ob. marketplace ob = ''example_com''
            \<and> date_str ob = latest_date example_observations ''example_com'')
          example_observations)
   \<and> latest_date example_observations ''example_com'' = ''2024-01-02''
   \<and> export_latest_marketplace example_services example_observations ''example_com''
       = Inr [(''https://www.example.com/c'', 2), (''https://www.example.com/b'', 3)]"
proof -
  have m: "''example_com'' \<in> set (map marketplace example_observations)"
    by (simp add: example_observations_def)
  have d: "latest_date example_observations ''example_com'' = ''2024-01-02''"
    by (simp add: latest_date_def example_observations_def)
  have p: "list_all (\<lambda>ob. unit_price_usd example_services ob = Inr (the (price_cents ob) / 1000))
      (filter (\<lambda>ob. marketplace ob = ''example_com''
            \<and> date_str ob = latest_date example_observations ''example_com'')
          example_observations)"
    unfolding d by (simp add: example_observations_def) (simp add: example_observation_def)
  have e: "export_latest_marketplace example_services example_observations ''example_com''
       = Inr [(''https://www.example.com/c'', 2), (''https://www.example.com/b'', 3)]"
    by (simp add: export_latest_marketplace_def example_observations_def)
  from latest_snapshot_rows [OF m p] m p d e show ?thesis
    by simp
qed

section \<open>The export command is deterministic\<close>

subsection \<open>Grouping into an insertion-ordered dict\<close>

lemma append_to_tabulate:
  "distinct ks \<Longrightarrow>
   append_to k v (map (\<lambda>k'. (k', f k')) ks) =
     (if k \<in> set ks then map (\<lambda>k'. (k', if k' = k then f k' @ [v] else f k')) ks
      else map (\<lambda>k'. (k', f k')) ks @ [(k, [v])])"
  by (induction ks) auto

lemma foldl_append_to:
  "foldl (\<lambda>d x. append_to (kf x) (vf x) d) [] xs =
     map (\<lambda>k. (k, map vf (filter (\<lambda>x. kf x = k) xs))) (first_seen (map kf xs))"
proof (induction xs rule: rev_induct)
  case Nil
  show ?case by (simp add: first_seen_def)
next
  case (snoc x xs)
  have none: "filter (\<lambda>y. kf y = kf x) xs = []" if "kf x \<notin> kf ` set xs"
    using that by (auto simp: filter_empty_conv image_iff)
  show ?case
    by (auto simp: snoc.IH append_to_tabulate first_seen_snoc none)
qed

subsection \<open>The consolidator and the identifiers\<close>

lemma strip_selectors [simp]:
  "datetime (strip ob) = datetime ob"
  "price_cents (strip ob) = price_cents ob"
  "currency_symbol (strip ob) = currency_symbol ob"
  "Observation.quantity (strip ob) = Observation.quantity ob"
  "Observation.domain_name (strip ob) = Observation.domain_name ob"
  "url (strip ob) = url ob"
  by (simp_all add: strip_def)

lemma strip_fields [simp]:
  "marketplace (strip ob) = marketplace ob"
  "date_str (strip ob) = date_str ob"
  "unit_price_usd sv (strip ob) = unit_price_usd sv ob"
  by (simp_all add: marketplace_def date_str_def date_def unit_price_usd_def
      price_usd_def iso_currency_def price_def Let_def
      cong: if_cong option.case_cong sum.case_cong)

lemma strip_uuid_update [simp]: "strip (ob \<lparr> uuid := u \<rparr>) = strip ob"
  by (simp add: strip_def)

lemma consolidate_uuid:
  "consolidate_assignments u assignments =
     map_sum id (map_option (\<lambda>ob. ob \<lparr> uuid := u \<rparr>)) (consolidate_assignments v assignments)"
  by (simp add: consolidate_assignments_def Let_def
      split: list.splits sum.splits option.splits prod.splits)

lemma consolidate_all_uuid:
  assumes "consolidate_all gen n groups = Inr obs"
  shows "\<exists>obs'. consolidate_all gen' n' groups = Inr obs' \<and> map strip obs' = map strip obs"
  using assms
proof (induction groups arbitrary: n n' obs)
  case Nil
  then show ?case by simp
next
  case (Cons g groups)
  show ?case
  proof (cases "consolidate_assignments (gen n) g")
    case (Inl e)
    with Cons.prems show ?thesis by simp
  next
    case (Inr res)
    have other: "consolidate_assignments (gen' n') g =
        Inr (map_option (\<lambda>ob. ob \<lparr> uuid := gen' n' \<rparr>) res)"
      using consolidate_uuid [of "gen' n'" g "gen n"] Inr by simp
    show ?thesis
    proof (cases res)
      case None
      with Cons.prems Inr have "consolidate_all gen n groups = Inr obs" by simp
      from Cons.IH [OF this, of n'] show ?thesis
        using other None by simp
    next
      case (Some ob)
      with Cons.prems Inr obtain rest where rest: "consolidate_all gen (Suc n) groups = Inr rest"
        and obs: "obs = ob # rest"
        by (auto split: sum.splits)
      from Cons.IH [OF rest, of "Suc n'"] obtain rest'
        where "consolidate_all gen' (Suc n') groups = Inr rest'" "map strip rest' = map strip rest"
        by blast
      then show ?thesis
        using other Some obs by simp
    qed
  qed
qed

lemma consolidate_some_uuid:
  "consolidate_assignments u assignments = Inr (Some ob) \<Longrightarrow> uuid ob = u"
  by (auto simp: consolidate_assignments_def Let_def
      split: list.splits sum.splits option.splits prod.splits if_splits)

lemma consolidate_all_uuids:
  "consolidate_all gen n groups = Inr obs \<Longrightarrow> map uuid obs = map gen [n ..< n + length obs]"
proof (induction groups arbitrary: n obs)
  case Nil
  then show ?case by simp
next
  case (Cons g groups)
  show ?case
  proof (cases "consolidate_assignments (gen n) g")
    case (Inl e)
    with Cons.prems show ?thesis by simp
  next
    case (Inr res)
    show ?thesis
    proof (cases res)
      case None
      with Cons Inr show ?thesis by simp
    next
      case (Some ob)
      with Cons.prems Inr obtain rest where rest: "consolidate_all gen (Suc n) groups = Inr rest"
        and obs: "obs = ob # rest"
        by (auto split: sum.splits)
      have "uuid ob = gen n"
        using Inr Some by (simp add: consolidate_some_uuid)
      with Cons.IH [OF rest] obs show ?thesis
        by (simp add: upt_conv_Cons del: upt_Suc)
    qed
  qed
qed

lemma consolidate_all_distinct:
  assumes "inj gen" and "consolidate_all gen n groups = Inr obs"
  shows "distinct (map uuid obs)"
  using assms by (simp add: consolidate_all_uuids distinct_map inj_on_def inj_def)

subsection \<open>The outlier filter and the identifiers\<close>

lemma filter_bucket_Inr:
  assumes "filter_bucket sv cur = Inr kept"
  shows "list_all (\<lambda>ob. unit_price_usd sv ob = Inr (the_unit_price sv ob)) cur"
proof -
  from assms obtain ps where "map_raising (unit_price_usd sv) cur = Inr ps"
    by (auto simp: filter_bucket_def Let_def split: sum.splits)
  then have "list_all (\<lambda>ob. \<exists>p. unit_price_usd sv ob = Inr p) cur"
    by (rule map_raising_Inr)
  then show ?thesis
    by (auto simp: list_all_iff the_unit_price_def)
qed

lemma filter_loop_Inr:
  "filter_loop sv observations ks results = Inr out \<Longrightarrow> (m, d) \<in> set ks \<Longrightarrow>
   \<exists>kept. filter_bucket sv
     (filter (\<lambda>ob. marketplace ob = m \<and> date_str ob = d) observations) = Inr kept"
  by (induction ks arbitrary: results) (auto split: sum.splits)

lemma filter_outliers_priced:
  assumes "set_iterator set_iter"
    and "filter_outliers sv set_iter observations = Inr out"
  shows "list_all (\<lambda>ob. unit_price_usd sv ob = Inr (the_unit_price sv ob)) observations"
proof -
  let ?ms = "set_iter (map marketplace observations)"
  let ?ds = "set_iter (map date_str observations)"
  from assms(1) have ms: "set ?ms = set (map marketplace observations)"
    and ds: "set ?ds = set (map date_str observations)"
    by (simp_all add: set_iterator_def)
  have "unit_price_usd sv ob = Inr (the_unit_price sv ob)" if ob: "ob \<in> set observations" for ob
  proof -
    from ob have "(marketplace ob, date_str ob) \<in> set (List.product ?ms ?ds)"
      by (simp add: ms ds)
    with assms(2) obtain kept where "filter_bucket sv
        (filter (\<lambda>p. marketplace p = marketplace ob \<and> date_str p = date_str ob) observations)
        = Inr kept"
      unfolding filter_outliers_def Let_def by (blast dest: filter_loop_Inr)
    from filter_bucket_Inr [OF this] ob show ?thesis
      by (simp add: list_all_iff)
  qed
  then show ?thesis
    by (simp add: list_all_iff)
qed

lemma concat_pick:
  "distinct ks \<Longrightarrow>
   concat (map (\<lambda>k'. if k' = k then ys else []) ks) = (if k \<in> set ks then ys else [])"
  by (induction ks) auto

lemma filter_key_concat:
  assumes "distinct ks" and "\<forall>x \<in> set xs. key x \<in> set ks"
  shows "filter (\<lambda>x. key x = k) (concat (map (\<lambda>k'. filter (\<lambda>x. key x = k' \<and> Q x) xs) ks)) =
         filter (\<lambda>x. key x = k \<and> Q x) xs"
proof -
  have one: "filter (\<lambda>x. key x = k) (filter (\<lambda>x. key x = k' \<and> Q x) xs) =
      (if k' = k then filter (\<lambda>x. key x = k \<and> Q x) xs else [])" for k'
    by (auto simp: filter_empty_conv intro: filter_cong)
  have "filter (\<lambda>x. key x = k) (concat (map (\<lambda>k'. filter (\<lambda>x. key x = k' \<and> Q x) xs) ks)) =
      concat (map (\<lambda>k'. filter (\<lambda>x. key x = k) (filter (\<lambda>x. key x = k' \<and> Q x) xs)) ks)"
    by (simp add: filter_concat comp_def del: filter_filter)
  also have "\<dots> = concat (map (\<lambda>k'. if k' = k then filter (\<lambda>x. key x = k \<and> Q x) xs else []) ks)"
    by (simp only: one)
  also have "\<dots> = (if k \<in> set ks then filter (\<lambda>x. key x = k \<and> Q x) xs else [])"
    using assms(1) by (rule concat_pick)
  finally have "filter (\<lambda>x. key x = k) (concat (map (\<lambda>k'. filter (\<lambda>x. key x = k' \<and> Q x) xs) ks)) =
      (if k \<in> set ks then filter (\<lambda>x. key x = k \<and> Q x) xs else [])" .
  moreover have "filter (\<lambda>x. key x = k \<and> Q x) xs = []" if "k \<notin> set ks"
    using that assms(2) by (auto simp: filter_empty_conv)
  ultimately show ?thesis by simp
qed

lemma bucket_strip:
  "bucket (map strip observations) (strip ob) = map strip (bucket observations ob)"
  by (simp add: bucket_def filter_map comp_def)

lemma retained_strip:
  assumes "\<And>ob. unit_price (strip ob) = unit_price ob"
  shows "retained unit_price (map strip observations) (strip ob) =
         retained unit_price observations ob"
  by (simp add: retained_def bucket_strip assms comp_def)

lemma the_unit_price_strip [simp]: "the_unit_price sv (strip ob) = the_unit_price sv ob"
  by (simp add: the_unit_price_def)

lemma bucket_key_strip [simp]: "bucket_key (strip ob) = bucket_key ob"
  by (simp add: bucket_key_def)

lemma kept_strip:
  "map strip (filter (\<lambda>ob. bucket_key ob = k \<and> retained (the_unit_price sv) observations ob)
       observations) =
   filter (\<lambda>ob. bucket_key ob = k \<and> retained (the_unit_price sv) (map strip observations) ob)
     (map strip observations)"
  by (simp add: filter_map comp_def retained_strip)

lemma two_runs_same_buckets:
  assumes it: "set_iterator it1" "set_iterator it2"
    and uuids: "distinct (map uuid obs1)" "distinct (map uuid obs2)"
    and same: "map strip obs1 = map strip obs2"
    and run: "filter_outliers sv it1 obs1 = Inr out1"
  shows "\<exists>out2. filter_outliers sv it2 obs2 = Inr out2 \<and> same_buckets out1 out2"
proof -
  let ?up = "the_unit_price sv"
  let ?ks = "\<lambda>it obs. List.product (it (map marketplace obs)) (it (map date_str obs))"
  let ?kept = "\<lambda>obs k. filter (\<lambda>ob. bucket_key ob = k \<and> retained ?up obs ob) obs"
  have priced1: "list_all (\<lambda>ob. unit_price_usd sv ob = Inr (?up ob)) obs1"
    using it(1) run by (rule filter_outliers_priced)
  have priced2: "list_all (\<lambda>ob. unit_price_usd sv ob = Inr (?up ob)) obs2"
    unfolding list_all_iff
  proof
    fix ob assume "ob \<in> set obs2"
    then have "strip ob \<in> set (map strip obs1)"
      unfolding same by simp
    then obtain ob' where ob': "ob' \<in> set obs1" "strip ob' = strip ob"
      by auto
    from priced1 ob'(1) have "unit_price_usd sv (strip ob') = Inr (?up (strip ob'))"
      by (simp add: list_all_iff)
    then show "unit_price_usd sv ob = Inr (?up ob)"
      unfolding ob'(2) by simp
  qed
  have out1: "out1 = concat (map (?kept obs1) (?ks it1 obs1))"
    using filter_outliers_concat [OF it(1) uuids(1) priced1] run by simp
  have out2: "filter_outliers sv it2 obs2 = Inr (concat (map (?kept obs2) (?ks it2 obs2)))"
    using it(2) uuids(2) priced2 by (rule filter_outliers_concat)
  have pick: "filter (\<lambda>ob. bucket_key ob = k) (concat (map (?kept obs) (?ks it obs))) = ?kept obs k"
    if "set_iterator it" for it obs k
  proof (rule filter_key_concat)
    from that have d: "distinct (it (map marketplace obs))" "distinct (it (map date_str obs))"
      and s: "set (it (map marketplace obs)) = set (map marketplace obs)"
        "set (it (map date_str obs)) = set (map date_str obs)"
      by (simp_all add: set_iterator_def)
    from d show "distinct (?ks it obs)"
      by (rule distinct_product)
    show "\<forall>ob \<in> set obs. bucket_key ob \<in> set (?ks it obs)"
      by (simp add: bucket_key_def s)
  qed
  have "map strip (?kept obs1 k) = map strip (?kept obs2 k)" for k
    by (simp only: kept_strip same)
  then have "same_buckets (concat (map (?kept obs1) (?ks it1 obs1)))
      (concat (map (?kept obs2) (?ks it2 obs2)))"
    unfolding same_buckets_def by (simp only: pick [OF it(1)] pick [OF it(2)]) simp
  with out1 out2 show ?thesis by simp
qed

subsection \<open>Observation lists with the same buckets\<close>

lemma same_buckets_map:
  assumes "same_buckets xs ys" and "\<And>ob. f (strip ob) = f ob"
  shows "map f (filter (\<lambda>ob. bucket_key ob = k) xs) = map f (filter (\<lambda>ob. bucket_key ob = k) ys)"
proof -
  have "map f zs = map f (map strip zs)" for zs
    by (simp add: assms(2))
  then show ?thesis
    using assms(1) by (metis same_buckets_def)
qed

lemma same_buckets_keys:
  assumes "same_buckets xs ys"
  shows "set (map bucket_key xs) = set (map bucket_key ys)"
proof -
  have "k \<in> set (map bucket_key zs) \<longleftrightarrow> map strip (filter (\<lambda>ob. bucket_key ob = k) zs) \<noteq> []"
    for k zs
    by (auto simp: filter_empty_conv)
  with assms show ?thesis
    unfolding same_buckets_def by (metis subsetI subset_antisym)
qed

lemma same_buckets_priced:
  assumes "same_buckets xs ys"
    and "list_all (\<lambda>ob. unit_price_usd sv ob = Inr (the_unit_price sv ob)) xs"
  shows "list_all (\<lambda>ob. unit_price_usd sv ob = Inr (the_unit_price sv ob)) ys"
  unfolding list_all_iff
proof
  fix ob assume ob: "ob \<in> set ys"
  let ?k = "bucket_key ob"
  from ob have "strip ob \<in> set (map strip (filter (\<lambda>p. bucket_key p = ?k) ys))"
    by simp
  with assms(1) have "strip ob \<in> set (map strip (filter (\<lambda>p. bucket_key p = ?k) xs))"
    by (simp only: same_buckets_def)
  then obtain ob' where ob': "ob' \<in> set xs" "strip ob' = strip ob"
    by auto
  from assms(2) ob'(1) have "unit_price_usd sv (strip ob') = Inr (the_unit_price sv (strip ob'))"
    by (simp add: list_all_iff)
  then show "unit_price_usd sv ob = Inr (the_unit_price sv ob)"
    unfolding ob'(2) by simp
qed

lemma sort_key_distinct_set:
  fixes f :: "'a \<Rightarrow> 'b::linorder"
  assumes "distinct (map f xs)" and "distinct (map f ys)" and "set xs = set ys"
  shows "sort_key f xs = sort_key f ys"
proof (rule sort_key_inj_key_eq)
  from assms have "distinct xs" "distinct ys"
    by (simp_all add: distinct_map)
  with assms(3) have "mset xs = mset ys"
    by (simp add: set_eq_iff_mset_eq_distinct)
  then show "mset xs = mset (sort_key f ys)"
    by simp
  from assms(1) show "inj_on f (set xs)"
    by (simp add: distinct_map)
  show "sorted (map f (sort_key f ys))"
    by simp
qed

lemma foldl_write:
  "foldl (\<lambda>dir (k, v). dir(name k \<mapsto> content v)) dir kvs =
     dir ++ map_of (rev (map (\<lambda>(k, v). (name k, content v)) kvs))"
proof (induction kvs rule: rev_induct)
  case Nil
  show ?case by simp
next
  case (snoc x kvs)
  have "foldl (\<lambda>dir (k, v). dir(name k \<mapsto> content v)) dir (kvs @ [x]) =
      (foldl (\<lambda>dir (k, v). dir(name k \<mapsto> content v)) dir kvs)(name (fst x) \<mapsto> content (snd x))"
    by (simp add: case_prod_beta)
  also have "\<dots> = (dir ++ map_of (rev (map (\<lambda>(k, v). (name k, content v)) kvs)))
      (name (fst x) \<mapsto> content (snd x))"
    by (simp only: snoc.IH)
  also have "\<dots> = dir ++ map_of (rev (map (\<lambda>(k, v). (name k, content v)) (kvs @ [x])))"
    by (simp add: case_prod_beta)
  finally show ?case .
qed

lemma map_of_rev_distinct_set:
  assumes "distinct (map fst xs)" and "distinct (map fst ys)" and "set xs = set ys"
  shows "map_of (rev xs) = map_of (rev ys)"
proof -
  have "distinct (map fst (rev xs))" "distinct (map fst (rev ys))"
    using assms(1,2) by (simp_all add: rev_map [symmetric])
  then show ?thesis
    using assms(3) by (simp add: map_of_inject_set)
qed

subsection \<open>The exporters on lists with the same buckets\<close>

lemma day_key_bucket_key: "day_key ob = k \<longleftrightarrow> bucket_key ob = (snd k, fst k)"
  by (auto simp: day_key_def bucket_key_def)

lemma export_timeseries_value:
  assumes "list_all (\<lambda>ob. unit_price_usd sv ob = Inr (the_unit_price sv ob)) observations"
  shows "export_timeseries sv observations out_dir =
     Inr (out_dir ++ map_of (rev (map
       (\<lambda>m. (m @ ''_timeseries.csv'', sort_key fst (timeseries_rows sv observations m)))
       (first_seen (map snd (first_seen (map day_key observations)))))))"
proof -
  let ?up = "the_unit_price sv"
  let ?e = "\<lambda>ob. (day_key ob, ?up ob)"
  let ?ks = "first_seen (map day_key observations)"
  let ?g = "\<lambda>k. (k, map ?up (filter (\<lambda>ob. day_key ob = k) observations))"
  have "list_all (\<lambda>ob. (case unit_price_usd sv ob of Inl e \<Rightarrow> Inl e
      | Inr p \<Rightarrow> Inr ((date_str ob, marketplace ob), p)) = Inr ((date_str ob, marketplace ob), ?up ob))
      observations"
    using assms by (rule list_all_row)
  then have entries: "map_raising (\<lambda>ob. case unit_price_usd sv ob of Inl e \<Rightarrow> Inl e
      | Inr p \<Rightarrow> Inr ((date_str ob, marketplace ob), p)) observations = Inr (map ?e observations)"
    unfolding day_key_def by (rule map_raising_all)
  have "foldl (\<lambda>d (key, p). append_to key p d) [] (map ?e observations) =
      foldl (\<lambda>d x. append_to (fst x) (snd x) d) [] (map ?e observations)"
    by (simp only: case_prod_unfold)
  also have "\<dots> = map (\<lambda>k. (k, map snd (filter (\<lambda>x. fst x = k) (map ?e observations))))
      (first_seen (map fst (map ?e observations)))"
    by (rule foldl_append_to)
  also have "\<dots> = map ?g ?ks"
    by (simp add: filter_map comp_def)
  finally have dup: "foldl (\<lambda>d (key, p). append_to key p d) [] (map ?e observations) = map ?g ?ks" .
  have "foldl (\<lambda>d ((ds, m), unit_prices). append_to m (ds, median unit_prices) d) [] (map ?g ?ks) =
      foldl (\<lambda>d x. append_to (snd (fst x)) (fst (fst x), median (snd x)) d) [] (map ?g ?ks)"
    by (simp only: case_prod_unfold)
  also have "\<dots> = map (\<lambda>m. (m, map (\<lambda>x. (fst (fst x), median (snd x)))
        (filter (\<lambda>x. snd (fst x) = m) (map ?g ?ks))))
      (first_seen (map (\<lambda>x. snd (fst x)) (map ?g ?ks)))"
    by (rule foldl_append_to)
  also have "\<dots> = map (\<lambda>m. (m, timeseries_rows sv observations m)) (first_seen (map snd ?ks))"
    by (simp add: filter_map comp_def timeseries_rows_def)
  finally have dm: "foldl (\<lambda>d ((ds, m), unit_prices). append_to m (ds, median unit_prices) d) []
      (map ?g ?ks) = map (\<lambda>m. (m, timeseries_rows sv observations m)) (first_seen (map snd ?ks))" .
  show ?thesis
    unfolding export_timeseries_def entries sum.case Let_def dup dm
    by (simp add: foldl_write [where name = "\<lambda>k. k @ ''_timeseries.csv''" and content = "sort_key fst"]
        comp_def)
qed

lemma export_timeseries_same_buckets:
  assumes same: "same_buckets xs ys"
    and priced: "list_all (\<lambda>ob. unit_price_usd sv ob = Inr (the_unit_price sv ob)) xs"
  shows "export_timeseries sv xs out_dir = export_timeseries sv ys out_dir"
proof -
  let ?up = "the_unit_price sv"
  let ?ms = "\<lambda>zs. first_seen (map snd (first_seen (map day_key zs)))"
  let ?w = "\<lambda>zs. map (\<lambda>m. (m @ ''_timeseries.csv'', sort_key fst (timeseries_rows sv zs m))) (?ms zs)"
  have priced': "list_all (\<lambda>ob. unit_price_usd sv ob = Inr (?up ob)) ys"
    using same priced by (rule same_buckets_priced)
  have keys: "set (map day_key xs) = set (map day_key ys)"
  proof -
    have "set (map day_key zs) = (\<lambda>k. (snd k, fst k)) ` set (map bucket_key zs)" for zs
      by (auto simp: day_key_def bucket_key_def image_iff)
    with same_buckets_keys [OF same] show ?thesis by simp
  qed
  have prices: "map ?up (filter (\<lambda>ob. day_key ob = k) xs) = map ?up (filter (\<lambda>ob. day_key ob = k) ys)"
    for k
    unfolding day_key_bucket_key by (rule same_buckets_map [OF same]) simp
  have dist: "distinct (map fst (timeseries_rows sv zs m))" for zs m
  proof -
    have "inj_on fst {k. snd k = m}"
      by (auto simp: inj_on_def)
    then have "inj_on fst (set (filter (\<lambda>k. snd k = m) (first_seen (map day_key zs))))"
      by (rule inj_on_subset) auto
    then show ?thesis
      by (simp add: timeseries_rows_def comp_def distinct_map)
  qed
  have rows: "set (timeseries_rows sv xs m) = set (timeseries_rows sv ys m)" for m
    using keys by (simp add: timeseries_rows_def prices)
  have table: "sort_key fst (timeseries_rows sv xs m) = sort_key fst (timeseries_rows sv ys m)" for m
    using dist dist rows by (rule sort_key_distinct_set)
  have names: "distinct (map fst (?w zs))" for zs
  proof -
    have "inj_on (\<lambda>m. m @ ''_timeseries.csv'') (set (?ms zs))"
      by (simp add: inj_on_def)
    then show ?thesis
      by (simp add: comp_def distinct_map)
  qed
  have "set (?ms xs) = set (?ms ys)"
    using keys by simp
  then have "set (?w xs) = set (?w ys)"
    by (simp add: table)
  with names names have "map_of (rev (?w xs)) = map_of (rev (?w ys))"
    by (rule map_of_rev_distinct_set)
  then show ?thesis
    by (simp only: export_timeseries_value [OF priced] export_timeseries_value [OF priced'])
qed

lemma export_latest_loop_value:
  assumes "list_all (\<lambda>ob. unit_price_usd sv ob = Inr (the_unit_price sv ob)) observations"
    and "set ms \<subseteq> set (map marketplace observations)"
  shows "export_latest_loop sv observations ms out_dir =
     Inr (out_dir ++ map_of (rev (map (\<lambda>m. (m @ ''_latest.csv'', latest_rows sv observations m)) ms)))"
  using assms(2)
proof (induction ms arbitrary: out_dir)
  case Nil
  show ?case by simp
next
  case (Cons m ms)
  from Cons.prems have m: "m \<in> set (map marketplace observations)"
    and ms: "set ms \<subseteq> set (map marketplace observations)"
    by simp_all
  have "list_all (\<lambda>ob. unit_price_usd sv ob = Inr (the_unit_price sv ob))
      (filter (\<lambda>ob. marketplace ob = m \<and> date_str ob = latest_date observations m) observations)"
    using assms(1) by (rule list_all_filter)
  from export_latest_marketplace_value [OF m this]
  have one: "export_latest_marketplace sv observations m = Inr (latest_rows sv observations m)"
    by (simp add: latest_rows_def bucket_key_def)
  let ?rest = "map_of (rev (map (\<lambda>m. (m @ ''_latest.csv'', latest_rows sv observations m)) ms))"
  have "export_latest_loop sv observations (m # ms) out_dir =
      export_latest_loop sv observations ms
        (out_dir(m @ ''_latest.csv'' \<mapsto> latest_rows sv observations m))"
    by (simp add: one)
  also have "\<dots> = Inr (out_dir(m @ ''_latest.csv'' \<mapsto> latest_rows sv observations m) ++ ?rest)"
    by (rule Cons.IH [OF ms])
  also have "out_dir(m @ ''_latest.csv'' \<mapsto> latest_rows sv observations m) ++ ?rest =
      out_dir ++ map_of (rev (map (\<lambda>m. (m @ ''_latest.csv'', latest_rows sv observations m)) (m # ms)))"
    by (simp add: map_add_assoc)
  finally show ?case .
qed

lemma latest_rows_same_buckets:
  assumes "same_buckets xs ys"
  shows "latest_rows sv xs m = latest_rows sv ys m"
proof -
  have dates: "set (map date_str (filter (\<lambda>ob. marketplace ob = m) zs)) =
      {d. (m, d) \<in> set (map bucket_key zs)}" for zs
    by (auto simp: bucket_key_def image_iff)
  have "latest_date xs m = latest_date ys m"
    unfolding latest_date_def dates same_buckets_keys [OF assms] ..
  moreover have "map (\<lambda>ob. (url ob, the_unit_price sv ob)) (filter (\<lambda>ob. bucket_key ob = k) xs) =
      map (\<lambda>ob. (url ob, the_unit_price sv ob)) (filter (\<lambda>ob. bucket_key ob = k) ys)" for k
    by (rule same_buckets_map [OF assms]) simp
  ultimately show ?thesis
    by (simp add: latest_rows_def)
qed

lemma export_latest_same_buckets:
  assumes it: "set_iterator it1" "set_iterator it2"
    and same: "same_buckets xs ys"
    and priced: "list_all (\<lambda>ob. unit_price_usd sv ob = Inr (the_unit_price sv ob)) xs"
  shows "export_latest_observations sv it1 xs out_dir = export_latest_observations sv it2 ys out_dir"
proof -
  let ?w = "\<lambda>zs ms. map (\<lambda>m. (m @ ''_latest.csv'', latest_rows sv zs m)) ms"
  let ?m1 = "it1 (map marketplace xs)" and ?m2 = "it2 (map marketplace ys)"
  have priced': "list_all (\<lambda>ob. unit_price_usd sv ob = Inr (the_unit_price sv ob)) ys"
    using same priced by (rule same_buckets_priced)
  from it have d: "distinct ?m1" "distinct ?m2"
    and s: "set ?m1 = set (map marketplace xs)" "set ?m2 = set (map marketplace ys)"
    by (simp_all add: set_iterator_def)
  have "set (map marketplace zs) = fst ` set (map bucket_key zs)" for zs
    by (auto simp: bucket_key_def image_iff)
  with same_buckets_keys [OF same] have "set (map marketplace xs) = set (map marketplace ys)"
    by simp
  with s have sets: "set ?m1 = set ?m2"
    by simp
  have names: "distinct (map fst (?w zs ms))" if "distinct ms" for zs ms
  proof -
    have "inj_on (\<lambda>m. m @ ''_latest.csv'') (set ms)"
      by (simp add: inj_on_def)
    with that show ?thesis
      by (simp add: comp_def distinct_map)
  qed
  have "set (?w xs ?m1) = set (?w ys ?m2)"
    using sets by (simp add: latest_rows_same_buckets [OF same])
  with names [OF d(1)] names [OF d(2)] have "map_of (rev (?w xs ?m1)) = map_of (rev (?w ys ?m2))"
    by (rule map_of_rev_distinct_set)
  moreover have "export_latest_observations sv it1 xs out_dir =
      Inr (out_dir ++ map_of (rev (?w xs ?m1)))"
    unfolding export_latest_observations_def
    using priced by (rule export_latest_loop_value) (simp add: s)
  moreover have "export_latest_observations sv it2 ys out_dir =
      Inr (out_dir ++ map_of (rev (?w ys ?m2)))"
    unfolding export_latest_observations_def
    using priced' by (rule export_latest_loop_value) (simp add: s)
  ultimately show ?thesis
    by simp
qed

lemma filter_outliers_subset:
  assumes "set_iterator set_iter" and "distinct (map uuid observations)"
    and "filter_outliers sv set_iter observations = Inr out"
  shows "set out \<subseteq> set observations"
proof -
  have "list_all (\<lambda>ob. unit_price_usd sv ob = Inr (the_unit_price sv ob)) observations"
    using assms(1,3) by (rule filter_outliers_priced)
  from filter_outliers_concat [OF assms(1,2) this] assms(3) show ?thesis
    by auto
qed

subsection \<open>The export command\<close>

text \<open>
  Claim C7: two runs of the export command on the same reports write the same files.
  The runs may differ in the identifiers that \<open>uuid4\<close> generates and in the order in
  which the sets of marketplaces and dates iterate; the identifiers of a run are pairwise
  different. The services (the currency parser and the rate table) are those of both
  runs. When one run ends with the directory \<open>files\<close>, so does the other.
\<close>

theorem export_deterministic:
  assumes "set_iterator it1" and "set_iterator it2" and "inj gen1" and "inj gen2"
    and "export sv it1 gen1 session = Inr files"
  shows "export sv it2 gen2 session = Inr files"
proof -
  let ?groups = "map snd (fetch_assignments session)"
  from assms(5) obtain obs1 out1 dir1
    where c1: "consolidate_all gen1 0 ?groups = Inr obs1"
      and f1: "filter_outliers sv it1 obs1 = Inr out1"
      and t1: "export_timeseries sv out1 Map.empty = Inr dir1"
      and l1: "export_latest_observations sv it1 out1 dir1 = Inr files"
    by (auto simp: export_def Let_def split: sum.splits)
  from consolidate_all_uuid [OF c1] obtain obs2
    where c2: "consolidate_all gen2 0 ?groups = Inr obs2" and same: "map strip obs1 = map strip obs2"
    by metis
  have u1: "distinct (map uuid obs1)" and u2: "distinct (map uuid obs2)"
    using assms(3,4) c1 c2 by (auto intro: consolidate_all_distinct)
  from two_runs_same_buckets [OF assms(1,2) u1 u2 same f1] obtain out2
    where f2: "filter_outliers sv it2 obs2 = Inr out2" and buckets: "same_buckets out1 out2"
    by blast
  have "list_all (\<lambda>ob. unit_price_usd sv ob = Inr (the_unit_price sv ob)) obs1"
    using assms(1) f1 by (rule filter_outliers_priced)
  moreover have "set out1 \<subseteq> set obs1"
    using assms(1) u1 f1 by (rule filter_outliers_subset)
  ultimately have priced: "list_all (\<lambda>ob. unit_price_usd sv ob = Inr (the_unit_price sv ob)) out1"
    by (auto simp: list_all_iff)
  have t2: "export_timeseries sv out2 Map.empty = Inr dir1"
    using export_timeseries_same_buckets [OF buckets priced] t1 by simp
  have l2: "export_latest_observations sv it2 out2 dir1 = Inr files"
    using export_latest_same_buckets [OF assms(1,2) buckets priced] l1 by simp
  show ?thesis
    by (simp add: export_def Let_def c2 f2 t2 l2)
qed

lemma example_fetch:
  "map snd (fetch_assignments example_session) =
     [[example_report ''A1'' (Some 1000) (Some 10) (Some ''$'') True,
       example_report ''A2'' (Some 1000) (Some 10) (Some ''$'') True],
      [(example_report ''A3'' (Some 3000) (Some 10) (Some ''$'') True)
         \<lparr> Assignment.hit_id := ''H2'', hit := example_hit2 \<rparr>,
       (example_report ''A4'' (Some 3000) (Some 10) (Some ''$'') True)
         \<lparr> Assignment.hit_id := ''H2'', hit := example_hit2 \<rparr>]]"
  by (simp add: fetch_assignments_def example_session_def example_report_def)

lemma example_consolidate_1:
  "consolidate_assignments u
     [example_report ''A1'' (Some 1000) (Some 10) (Some ''$'') True,
      example_report ''A2'' (Some 1000) (Some 10) (Some ''$'') True] =
   Inr (Some (example_made example_hit 1000 u))"
  by (simp add: consolidate_by_counts [OF refl] check_legit_quantity_def example_made_def)

lemma example_consolidate_2:
  "consolidate_assignments u
     [(example_report ''A3'' (Some 3000) (Some 10) (Some ''$'') True)
         \<lparr> Assignment.hit_id := ''H2'', hit := example_hit2 \<rparr>,
      (example_report ''A4'' (Some 3000) (Some 10) (Some ''$'') True)
         \<lparr> Assignment.hit_id := ''H2'', hit := example_hit2 \<rparr>] =
   Inr (Some (example_made example_hit2 3000 u))"
  by (simp add: consolidate_by_counts [OF refl] check_legit_quantity_def example_made_def
      highest_count_def majority_tuple_def occurrences_def report_tuple_def example_report_def)

lemma example_made_fields [simp]:
  "marketplace (example_made example_hit cents uid) = ''example_com''"
  "marketplace (example_made example_hit2 cents uid) = ''example_com''"
  "date_str (example_made example_hit cents uid) = ''2020-04-01''"
  "date_str (example_made example_hit2 cents uid) = ''2020-04-02''"
  "url (example_made h cents uid) = url_param h"
  "uuid (example_made h cents uid) = uid"
  "unit_price_usd sv (example_made h cents uid) = Inr (cents / 1000)"
  by (simp_all add: example_made_def example_hit_def example_hit2_def marketplace_def
      unit_price_usd_def price_usd_def iso_currency_def price_def date_str_digits digit_char_def)

lemma example_export:
  assumes "gen 0 \<noteq> gen (Suc 0)"
  shows "export example_services remdups gen example_session = Inr example_files"
proof -
  let ?obs = "[example_made example_hit 1000 (gen 0), example_made example_hit2 3000 (gen (Suc 0))]"
  have c: "consolidate_all gen 0 (map snd (fetch_assignments example_session)) = Inr ?obs"
    by (simp add: example_fetch example_consolidate_1 example_consolidate_2)
  have b1: "filter_bucket example_services [example_made example_hit 1000 (gen 0)] =
      Inr [example_made example_hit 1000 (gen 0)]"
    and b2: "filter_bucket example_services [example_made example_hit2 3000 (gen (Suc 0))] =
      Inr [example_made example_hit2 3000 (gen (Suc 0))]"
    unfolding filter_bucket_def Let_def by simp_all
  have f: "filter_outliers example_services remdups ?obs = Inr ?obs"
    by (simp add: filter_outliers_def b1 b2)
  have t: "export_timeseries example_services ?obs Map.empty =
      Inr [''example_com_timeseries.csv'' \<mapsto> [(''2020-04-01'', 1), (''2020-04-02'', 3)]]"
    unfolding export_timeseries_def Let_def by (simp add: median_def)
  have u: "url_param example_hit2 = ''https://www.example.com/masks/2''"
    by (simp add: example_hit2_def)
  have l: "export_latest_observations example_services remdups ?obs
      [''example_com_timeseries.csv'' \<mapsto> [(''2020-04-01'', 1), (''2020-04-02'', 3)]] =
      Inr example_files"
    unfolding export_latest_observations_def export_latest_marketplace_def Let_def example_files_def
    by (simp add: export_latest_marketplace_def u)
  show ?thesis
    by (simp add: export_def Let_def c f t l)
qed

lemma inj_replicate: "inj (\<lambda>n. replicate n c)"
  by (rule injI) (metis length_replicate)

theorem export_deterministic_witness:
  "set_iterator (remdups :: string list \<Rightarrow> string list)
   \<and> set_iterator (\<lambda>xs :: string list. rev (remdups xs))
   \<and> inj (\<lambda>n. replicate n CHR ''a'') \<and> inj (\<lambda>n. replicate n CHR ''b'')
   \<and> export example_services remdups (\<lambda>n. replicate n CHR ''a'') example_session
       = Inr example_files
   \<and> export example_services (\<lambda>xs. rev (remdups xs)) (\<lambda>n. replicate n CHR ''b'') example_session
       = Inr example_files"
proof -
  have i1: "set_iterator (remdups :: string list \<Rightarrow> string list)"
    and i2: "set_iterator (\<lambda>xs :: string list. rev (remdups xs))"
    by (simp_all add: set_iterator_def)
  have g1: "inj (\<lambda>n. replicate n CHR ''a'')" and g2: "inj (\<lambda>n. replicate n CHR ''b'')"
    by (rule inj_replicate)+
  have run: "export example_services remdups (\<lambda>n. replicate n CHR ''a'') example_session
      = Inr example_files"
    by (rule example_export) simp
  from export_deterministic [OF i1 i2 g1 g2 run] i1 i2 g1 g2 run show ?thesis
    by simp
qed

end
